theory Spec2Isabelle
  imports Complex_Main
begin

section \<open>JavaScript strings and values\<close>

text \<open>
  A JavaScript string is a sequence of UTF-16 code units; \<open>length\<close>, \<open>includes\<close> and the
  regular expressions of the source all count code units. A code unit is modelled as a
  natural number, and an ASCII literal of the source is written \<open>js ''...''\<close>.
\<close>

type_synonym jsstring = "nat list"

definition js :: "string \<Rightarrow> jsstring" where
  "js s = map of_char s"

text \<open>
  A value that may be \<open>null\<close> or \<open>undefined\<close> is an option. \<open>truthy\<close> is the test of
  \<open>if (x)\<close> on such a string: \<open>null\<close>, \<open>undefined\<close> and the empty string are falsy.
\<close>

fun truthy :: "jsstring option \<Rightarrow> bool" where
  "truthy None = False"
| "truthy (Some s) = (s \<noteq> [])"

text \<open>\<open>x || ''\<close> on a string that may be absent.\<close>

fun or_empty :: "jsstring option \<Rightarrow> jsstring" where
  "or_empty None = []"
| "or_empty (Some s) = s"

text \<open>\<open>s.startsWith(sub)\<close> and \<open>s.includes(sub)\<close>.\<close>

fun startsWith :: "'a list \<Rightarrow> 'a list \<Rightarrow> bool" where
  "startsWith s [] = True"
| "startsWith [] (y # ys) = False"
| "startsWith (x # xs) (y # ys) = (x = y \<and> startsWith xs ys)"

fun str_includes :: "'a list \<Rightarrow> 'a list \<Rightarrow> bool" where
  "str_includes [] sub = (sub = [])"
| "str_includes (x # xs) sub = (startsWith (x # xs) sub \<or> str_includes xs sub)"

text \<open>What \<open>s.includes(sub)\<close> decides: \<open>sub\<close> occurs in \<open>s\<close> as a contiguous part.\<close>

definition substring_of :: "'a list \<Rightarrow> 'a list \<Rightarrow> bool" where
  "substring_of sub s = (\<exists>p q. s = p @ sub @ q)"

section \<open>The productivity classifier (database.js, isProductiveActivity)\<close>

definition browsers :: "jsstring list" where
  "browsers = [js ''Safari'', js ''Google Chrome'', js ''Firefox'', js ''Chrome'',
               js ''Edge'', js ''Brave'']"

text \<open>\<open>xs.some(p)\<close> is \<open>list_ex p xs\<close>.\<close>

definition isProductiveActivity ::
  "jsstring option \<Rightarrow> jsstring option \<Rightarrow> jsstring list \<Rightarrow> jsstring list \<Rightarrow> bool" where
  "isProductiveActivity appName windowTitle productiveApps productiveWebsites =
     (if \<not> truthy appName then False
      else if list_ex (\<lambda>app. str_includes (or_empty appName) app) productiveApps then True
      else if list_ex (\<lambda>browser. str_includes (or_empty appName) browser) browsers
           then (if truthy windowTitle
                 then list_ex (\<lambda>site. str_includes (or_empty windowTitle) site)
                        productiveWebsites
                 else False)
      else False)"

section \<open>The activity log and the database (database.js)\<close>

text \<open>
  A row of \<open>activity_log\<close>, with the columns the reconstruction reads. \<open>timestamp\<close> is the
  instant \<open>new Date(activity.timestamp)\<close> in milliseconds since the epoch (the column holds
  the ISO text of that instant; a text that does not parse is outside the model).
  \<open>is_afk\<close> is the INTEGER column, tested for truthiness, and \<open>afk_type\<close> the TEXT column.
\<close>

record activity =
  timestamp :: int
  app_name :: "jsstring option"
  window_title :: "jsstring option"
  is_afk :: int
  afk_type :: "jsstring option"

text \<open>
  A session \<open>{ start, end, duration }\<close>; \<open>end\<close> is written \<open>end'\<close>. \<open>duration\<close> is in seconds,
  \<open>(end - start) / 1000\<close>, computed exactly (the rounding of the floating-point division
  and sum is not modelled).
\<close>

record session =
  start :: int
  end' :: int
  duration :: rat

text \<open>
  The object \<open>analyzeWorkTime\<close> returns (workTracker.js). Its fields are written with the
  record's name, \<open>analysis.sessions\<close>, since the reconstruction's result has fields of the
  same names.
\<close>

record work_time_parts =
  hours :: int
  minutes :: int
  seconds :: int
  totalSeconds :: rat

record analysis =
  date :: int
  totalWorkTime :: work_time_parts
  formattedWorkTime :: jsstring
  shortFormattedWorkTime :: jsstring
  sessionsCount :: nat
  sessions :: "session list"

text \<open>
  A calendar date \<open>YYYY-MM-DD\<close> is modelled by its day number (days since 1970-01-01, UTC).
  SQLite's \<open>date(timestamp)\<close> and JavaScript's \<open>toISOString().split('T')[0]\<close> both give the
  UTC date of an instant.
\<close>

type_synonym date = int

definition date_of :: "int \<Rightarrow> date" where
  "date_of ms = ms div 86400000"

text \<open>
  A row of \<open>daily_summary\<close>. Every column but \<open>date\<close> may hold NULL. The numeric columns
  are bound from JavaScript numbers, which need not be whole (SQLite keeps a fractional
  value as it is), hence rationals.
\<close>

record summary =
  date :: date
  total_work_seconds :: "rat option"
  goal_seconds :: "rat option"
  sessions_count :: "rat option"
  productive_seconds :: "rat option"
  projects_json :: "jsstring option"

text \<open>
  The database object: \<open>available\<close> is \<open>Database !== null\<close> (the SQLite binding loaded),
  \<open>initialized\<close> the flag of the object, \<open>opens\<close> says whether opening the file and
  creating the tables succeeds, and the two tables are lists of rows in rowid order.
  SQL statements are assumed to execute without raising once the database is open.
\<close>

record database =
  available :: bool
  initialized :: bool
  opens :: bool
  activity_log :: "activity list"
  daily_summary :: "summary list"

definition isAvailable :: "database \<Rightarrow> bool" where
  "isAvailable db = available db"

text \<open>\<open>init()\<close>: its result, and the database object it leaves.\<close>

definition init :: "database \<Rightarrow> bool" where
  "init db = (if initialized db then True
              else if \<not> available db then False
              else opens db)"

definition after_init :: "database \<Rightarrow> database" where
  "after_init db = (if init db then db\<lparr>initialized := True\<rparr> else db)"

text \<open>
  \<open>getActivityForDate\<close>: \<open>SELECT * FROM activity_log WHERE date(timestamp) = ? ORDER BY
  timestamp ASC\<close>. Rows with equal timestamps stay in rowid order.
\<close>

definition getActivityForDate :: "database \<Rightarrow> date \<Rightarrow> activity list" where
  "getActivityForDate db d =
     (if \<not> initialized db \<and> \<not> init db then []
      else sort_key timestamp (filter (\<lambda>a. date_of (timestamp a) = d) (activity_log db)))"

section \<open>Session reconstruction (database.js, calculateWorkTimeForDate)\<close>

text \<open>The accumulators \<open>totalWorkSeconds\<close> and \<open>sessions\<close>, shared by the loop and the result.\<close>

record totals =
  totalWorkSeconds :: rat
  sessions :: "session list"

text \<open>The local variables of the loop.\<close>

record walk = totals +
  isAfk :: bool
  lastTimestamp :: "int option"
  lastWasProductive :: bool
  sessionStart :: "int option"

text \<open>The returned object \<open>{ totalWorkSeconds, sessions, sessionsCount }\<close>.\<close>

record work_time = totals +
  sessionsCount :: nat

text \<open>
  The block that occurs four times in the source:
  \<open>const duration = (e - s) / 1000;
    if (duration > 0) { sessions.push({ start: s, end: e, duration }); totalWorkSeconds += duration; }\<close>
\<close>

definition push_session :: "int \<Rightarrow> int \<Rightarrow> walk \<Rightarrow> walk" where
  "push_session s e st =
     (let duration = of_int (e - s) / 1000
      in if duration > 0
         then st\<lparr>sessions := sessions st @ [\<lparr>start = s, end' = e, duration = duration\<rparr>],
                 totalWorkSeconds := totalWorkSeconds st + duration\<rparr>
         else st)"

text \<open>One iteration of \<open>for (const activity of activities)\<close>.\<close>

definition walk_step :: "jsstring list \<Rightarrow> jsstring list \<Rightarrow> walk \<Rightarrow> activity \<Rightarrow> walk" where
  "walk_step productiveApps productiveWebsites st a =
     (if is_afk a \<noteq> 0 then
        (let st1 =
           (if afk_type a = Some (js ''start'') then
              (let st0 =
                 (case sessionStart st of
                    Some s \<Rightarrow>
                      if \<not> isAfk st
                      then (push_session s (timestamp a) st)\<lparr>sessionStart := None\<rparr>
                      else st
                  | None \<Rightarrow> st)
               in st0\<lparr>isAfk := True\<rparr>)
            else if afk_type a = Some (js ''end'') then st\<lparr>isAfk := False\<rparr>
            else st)
         in st1\<lparr>lastTimestamp := Some (timestamp a)\<rparr>)
      else if isAfk st then st
      else
        (let isProductive =
               isProductiveActivity (app_name a) (window_title a) productiveApps productiveWebsites;
             st1 =
               (if isProductive then
                  (case sessionStart st of
                     None \<Rightarrow> st\<lparr>sessionStart := Some (timestamp a)\<rparr>
                   | Some s \<Rightarrow> st)
                else
                  (case sessionStart st of
                     Some s \<Rightarrow> (push_session s (timestamp a) st)\<lparr>sessionStart := None\<rparr>
                   | None \<Rightarrow> st))
         in st1\<lparr>lastTimestamp := Some (timestamp a), lastWasProductive := isProductive\<rparr>))"

definition walk_init :: walk where
  "walk_init = \<lparr>totalWorkSeconds = 0, sessions = [], isAfk = False, lastTimestamp = None,
                lastWasProductive = False, sessionStart = None\<rparr>"

text \<open>
  \<open>// Handle ongoing session\<close>: \<open>now\<close> is \<open>new Date()\<close>, \<open>todayStr\<close> its UTC date.
\<close>

definition walk_finish :: "date \<Rightarrow> int \<Rightarrow> walk \<Rightarrow> walk" where
  "walk_finish d now st =
     (case sessionStart st of
        Some s \<Rightarrow>
          if \<not> isAfk st then
            (let todayStr = date_of now
             in if d = todayStr then push_session s now st
                else (case lastTimestamp st of
                        Some l \<Rightarrow> push_session s l st
                      | None \<Rightarrow> st))
          else st
      | None \<Rightarrow> st)"

text \<open>The body of \<open>calculateWorkTimeForDate\<close> from the initialisation of the locals on.\<close>

definition reconstruct ::
  "activity list \<Rightarrow> date \<Rightarrow> jsstring list \<Rightarrow> jsstring list \<Rightarrow> int \<Rightarrow> work_time" where
  "reconstruct activities d productiveApps productiveWebsites now =
     (let st = walk_finish d now
                 (foldl (walk_step productiveApps productiveWebsites) walk_init activities)
      in \<lparr>totalWorkSeconds = totalWorkSeconds st, sessions = sessions st,
          sessionsCount = length (sessions st)\<rparr>)"

text \<open>\<open>calculateWorkTimeForDate\<close>; \<open>None\<close> is the \<open>null\<close> it returns.\<close>

definition calculateWorkTimeForDate ::
  "database \<Rightarrow> date \<Rightarrow> jsstring list \<Rightarrow> jsstring list \<Rightarrow> int \<Rightarrow> work_time option" where
  "calculateWorkTimeForDate db d productiveApps productiveWebsites now =
     (if \<not> initialized db \<and> \<not> init db then None
      else
        (let activities = getActivityForDate db d
         in if length activities = 0 then None
            else Some (reconstruct activities d productiveApps productiveWebsites now)))"

section \<open>Work-time analysis (workTracker.js)\<close>

text \<open>
  The configuration object \<open>config.getAll()\<close>, with the fields read here. Loading merges
  the defaults in, so the two lists are always present (the fallback \<open>|| []\<close> of
  \<open>getProductiveApps\<close> and \<open>getProductiveWebsites\<close> never applies).
\<close>

record config =
  productiveApps :: "jsstring list"
  productiveWebsites :: "jsstring list"
  dailyGoalMinutes :: int

definition getProductiveApps :: "config \<Rightarrow> jsstring list" where
  "getProductiveApps cfg = productiveApps cfg"

definition getProductiveWebsites :: "config \<Rightarrow> jsstring list" where
  "getProductiveWebsites cfg = productiveWebsites cfg"

text \<open>\<open>n.toString()\<close> on a whole number, \<open>s.padStart(k, c)\<close>, and \<open>x % m\<close> for \<open>m > 0\<close>.\<close>

function digits :: "nat \<Rightarrow> jsstring" where
  "digits n = (if n < 10 then [48 + n] else digits (n div 10) @ [48 + n mod 10])"
  by pat_completeness auto
termination
  by (relation "measure id") auto

definition toString :: "int \<Rightarrow> jsstring" where
  "toString n = (if n < 0 then 45 # digits (nat (- n)) else digits (nat n))"

definition padStart :: "nat \<Rightarrow> nat \<Rightarrow> jsstring \<Rightarrow> jsstring" where
  "padStart k c s = replicate (k - length s) c @ s"

definition js_rem :: "rat \<Rightarrow> rat \<Rightarrow> rat" where
  "js_rem x m = x - m * of_int (if 0 \<le> x / m then \<lfloor>x / m\<rfloor> else \<lceil>x / m\<rceil>)"

definition createEmptyResult :: "date \<Rightarrow> analysis" where
  "createEmptyResult d =
     \<lparr>analysis.date = d,
      totalWorkTime = \<lparr>hours = 0, minutes = 0, seconds = 0, totalSeconds = 0\<rparr>,
      formattedWorkTime = js ''00:00:00'',
      shortFormattedWorkTime = js ''0h 0m'',
      analysis.sessionsCount = 0,
      analysis.sessions = []\<rparr>"

text \<open>
  \<open>analyzeWorkTime(logFilePath, targetDate)\<close>, the version that reads the database only;
  \<open>logFilePath\<close> is not used by it. \<open>targetDate\<close> is \<open>None\<close> when absent, \<open>now\<close> is the
  evaluation instant \<open>new Date()\<close>.
\<close>

definition analyzeWorkTime :: "database \<Rightarrow> config \<Rightarrow> date option \<Rightarrow> int \<Rightarrow> analysis" where
  "analyzeWorkTime db cfg targetDate now =
     (let d = (case targetDate of Some t \<Rightarrow> t | None \<Rightarrow> date_of now);
          apps = getProductiveApps cfg;
          sites = getProductiveWebsites cfg
      in if \<not> isAvailable db then createEmptyResult d
         else if \<not> initialized db \<and> \<not> init db then createEmptyResult d
         else
           (case calculateWorkTimeForDate db d apps sites now of
              None \<Rightarrow> createEmptyResult d
            | Some dbResult \<Rightarrow>
                (let hours = \<lfloor>totalWorkSeconds dbResult / 3600\<rfloor>;
                     minutes = \<lfloor>js_rem (totalWorkSeconds dbResult) 3600 / 60\<rfloor>;
                     seconds = \<lfloor>js_rem (totalWorkSeconds dbResult) 60\<rfloor>
                 in \<lparr>analysis.date = d,
                     totalWorkTime = \<lparr>hours = hours, minutes = minutes, seconds = seconds,
                                      totalSeconds = totalWorkSeconds dbResult\<rparr>,
                     formattedWorkTime =
                       padStart 2 48 (toString hours) @ js '':'' @
                       padStart 2 48 (toString minutes) @ js '':'' @
                       padStart 2 48 (toString seconds),
                     shortFormattedWorkTime =
                       toString hours @ js ''h '' @ toString minutes @ js ''m'',
                     analysis.sessionsCount = sessionsCount dbResult,
                     analysis.sessions = sessions dbResult\<rparr>)))"

section \<open>Daily summaries (database.js) and the streak (main.js)\<close>

text \<open>\<open>getDailySummary\<close>: \<open>SELECT * FROM daily_summary WHERE date = ?\<close>, first row or \<open>None\<close>.\<close>

definition getDailySummary :: "database \<Rightarrow> date \<Rightarrow> summary option" where
  "getDailySummary db d =
     (if \<not> initialized db \<and> \<not> init db then None
      else find (\<lambda>r. summary.date r = d) (daily_summary db))"

text \<open>SQL's \<open>COALESCE(x, y)\<close>.\<close>

fun coalesce :: "'a option \<Rightarrow> 'a option \<Rightarrow> 'a option" where
  "coalesce (Some x) y = Some x"
| "coalesce None y = y"

text \<open>
  \<open>INSERT INTO daily_summary (...) VALUES (...) ON CONFLICT(date) DO UPDATE SET ...\<close>:
  \<open>excluded\<close> is the row that was to be inserted. A row whose date is on the table is
  updated in place, otherwise the new row is appended.
\<close>

definition on_conflict_update :: "summary \<Rightarrow> summary \<Rightarrow> summary" where
  "on_conflict_update excluded r =
     r\<lparr>total_work_seconds := total_work_seconds excluded,
       goal_seconds := goal_seconds excluded,
       sessions_count := sessions_count excluded,
       productive_seconds := coalesce (productive_seconds excluded) (productive_seconds r),
       projects_json := coalesce (projects_json excluded) (projects_json r)\<rparr>"

definition upsert :: "summary \<Rightarrow> summary list \<Rightarrow> summary list" where
  "upsert excluded rows =
     (if list_ex (\<lambda>r. summary.date r = summary.date excluded) rows
      then map (\<lambda>r. if summary.date r = summary.date excluded
                     then on_conflict_update excluded r else r) rows
      else rows @ [excluded])"

text \<open>
  \<open>updateDailySummary(date, totalWorkSeconds, goalSeconds, sessionsCount,
  productiveSeconds = null, projectsJson = null)\<close>: the value returned and the database
  left behind.
\<close>

definition updateDailySummary ::
  "database \<Rightarrow> date \<Rightarrow> rat \<Rightarrow> rat \<Rightarrow> rat \<Rightarrow> rat option \<Rightarrow> jsstring option
     \<Rightarrow> bool \<times> database" where
  "updateDailySummary db d totalSecs goalSecs count productiveSeconds projectsJson =
     (if \<not> initialized db \<and> \<not> init db then (False, db)
      else
        (True,
         (after_init db)\<lparr>daily_summary :=
            upsert \<lparr>summary.date = d, total_work_seconds = Some totalSecs,
                    goal_seconds = Some goalSecs, sessions_count = Some count,
                    productive_seconds = productiveSeconds,
                    projects_json = projectsJson\<rparr>
              (daily_summary db)\<rparr>))"

text \<open>\<open>updateDailySummaryInDB\<close> of workTracker.js, which writes a recomputed day.\<close>

definition updateDailySummaryInDB :: "database \<Rightarrow> config \<Rightarrow> date \<Rightarrow> rat \<Rightarrow> rat \<Rightarrow> database" where
  "updateDailySummaryInDB db cfg d totalSecs count =
     (if \<not> isAvailable db \<or> \<not> initialized db then db
      else
        (let goalSeconds = of_int (dailyGoalMinutes cfg * 60)
         in snd (updateDailySummary db d totalSecs goalSeconds count None None)))"

text \<open>\<open>x || 0\<close> on a number that may be NULL.\<close>

fun or_zero :: "rat option \<Rightarrow> rat" where
  "or_zero None = 0"
| "or_zero (Some x) = x"

text \<open>
  The \<open>while (true)\<close> loop of \<open>calculateStreak\<close>. The \<open>Date\<close> walked backwards is modelled by
  its day number and \<open>date.setDate(date.getDate() - 1)\<close> by \<open>d - 1\<close> (a change of the local
  UTC offset from one day to the next is outside the model).
\<close>

function calculateStreak_loop :: "database \<Rightarrow> rat \<Rightarrow> nat \<Rightarrow> date \<Rightarrow> nat" where
  "calculateStreak_loop db goalSeconds streak d =
     (case getDailySummary db d of
        Some summary \<Rightarrow>
          if or_zero (total_work_seconds summary) \<ge> goalSeconds
          then (if streak + 1 > 365 then streak + 1
                else calculateStreak_loop db goalSeconds (streak + 1) (d - 1))
          else streak
      | None \<Rightarrow> streak)"
  by pat_completeness auto
termination
  by (relation "measure (\<lambda>(db, goalSeconds, streak, d). 366 - streak)") auto

declare calculateStreak_loop.simps [simp del]

definition calculateStreak :: "database \<Rightarrow> config \<Rightarrow> int \<Rightarrow> nat" where
  "calculateStreak db cfg now =
     (if \<not> isAvailable db \<or> \<not> initialized db then 0
      else
        (let goalSeconds = of_int (dailyGoalMinutes cfg * 60)
         in calculateStreak_loop db goalSeconds 0 (date_of now)))"

section \<open>The hourly histogram (main.js, get-hourly-stats and addTimeToHours)\<close>

text \<open>
  The local-time methods of \<open>Date\<close> depend on the time zone of the host: \<open>tz\<close> is its offset
  in milliseconds (local time is UTC plus \<open>tz\<close>), taken as constant over the interval
  walked. \<open>getHours tz t\<close> is \<open>t.getHours()\<close>, and \<open>endOfHour tz t\<close> the instant that
  \<open>setMinutes(59, 59, 999)\<close> leaves.
\<close>

definition getHours :: "int \<Rightarrow> int \<Rightarrow> nat" where
  "getHours tz t = nat (((t + tz) div 3600000) mod 24)"

definition endOfHour :: "int \<Rightarrow> int \<Rightarrow> int" where
  "endOfHour tz t = ((t + tz) div 3600000) * 3600000 + 3599999 - tz"

text \<open>
  \<open>addTimeToHours(hourlyMinutes, start, end)\<close>; \<open>Math.round\<close> is \<open>round\<close>. The array has 24
  entries and \<open>hour\<close> is below 24, so the assignment stays in range.
\<close>

function addTimeToHours :: "int \<Rightarrow> int list \<Rightarrow> int \<Rightarrow> int \<Rightarrow> int list" where
  "addTimeToHours tz hourlyMinutes current endT =
     (if current < endT then
        addTimeToHours tz
          (hourlyMinutes[getHours tz current :=
             hourlyMinutes ! getHours tz current
               + round ((of_int ((if endOfHour tz current < endT then endOfHour tz current
                                  else endT) - current) :: rat) / 60000)])
          (endOfHour tz current + 1) endT
      else hourlyMinutes)"
  by pat_completeness auto
termination
proof (relation "measure (\<lambda>(tz, hourlyMinutes, current, endT). nat (endT - current))")
  show "wf (measure (\<lambda>(tz, hourlyMinutes, current, endT). nat (endT - current)))"
    by simp
next
  fix tz :: int and hourlyMinutes :: "int list" and current endT :: int
  assume lt: "current < endT"
  have "(current + tz) mod 3600000 < 3600000"
    by simp
  then have "current + tz < ((current + tz) div 3600000) * 3600000 + 3600000"
    by (simp add: minus_mod_eq_div_mult [symmetric])
  then have "current < endOfHour tz current + 1"
    by (simp add: endOfHour_def)
  with lt show "((tz, hourlyMinutes[getHours tz current :=
             hourlyMinutes ! getHours tz current
               + round ((of_int ((if endOfHour tz current < endT then endOfHour tz current
                                  else endT) - current) :: rat) / 60000)],
           endOfHour tz current + 1, endT), (tz, hourlyMinutes, current, endT))
         \<in> measure (\<lambda>(tz, hourlyMinutes, current, endT). nat (endT - current))"
    by simp
qed

declare addTimeToHours.simps [simp del]

text \<open>
  One iteration of the loop of the \<open>get-hourly-stats\<close> handler, on its local variables
  \<open>(hourlyMinutes, isAfk, sessionStart)\<close>.
\<close>

definition hourly_step ::
  "int \<Rightarrow> jsstring list \<Rightarrow> jsstring list \<Rightarrow> int list \<times> bool \<times> int option \<Rightarrow> activity
     \<Rightarrow> int list \<times> bool \<times> int option" where
  "hourly_step tz apps sites =
     (\<lambda>(hourlyMinutes, isAfk, sessionStart) a.
        if is_afk a \<noteq> 0 then
          (if afk_type a = Some (js ''start'') then
             ((case sessionStart of
                 Some s \<Rightarrow>
                   if \<not> isAfk then addTimeToHours tz hourlyMinutes s (timestamp a)
                   else hourlyMinutes
               | None \<Rightarrow> hourlyMinutes),
              True, None)
           else if afk_type a = Some (js ''end'') then (hourlyMinutes, False, sessionStart)
           else (hourlyMinutes, isAfk, sessionStart))
        else if isAfk then (hourlyMinutes, isAfk, sessionStart)
        else
          (let isProductive = isProductiveActivity (app_name a) (window_title a) apps sites
           in if isProductive then
                (case sessionStart of
                   None \<Rightarrow> (hourlyMinutes, isAfk, Some (timestamp a))
                 | Some s \<Rightarrow> (hourlyMinutes, isAfk, sessionStart))
              else
                (case sessionStart of
                   Some s \<Rightarrow> (addTimeToHours tz hourlyMinutes s (timestamp a), isAfk, None)
                 | None \<Rightarrow> (hourlyMinutes, isAfk, sessionStart))))"

text \<open>\<open>// Handle ongoing session\<close> of the handler.\<close>

definition hourly_finish :: "int \<Rightarrow> date \<Rightarrow> int \<Rightarrow> int list \<times> bool \<times> int option \<Rightarrow> int list" where
  "hourly_finish tz d now =
     (\<lambda>(hourlyMinutes, isAfk, sessionStart).
        case sessionStart of
          Some s \<Rightarrow>
            if \<not> isAfk then
              (let todayStr = date_of now
               in if d = todayStr then addTimeToHours tz hourlyMinutes s now
                  else hourlyMinutes)
            else hourlyMinutes
        | None \<Rightarrow> hourlyMinutes)"

text \<open>The handler of \<open>get-hourly-stats\<close> for \<open>{ date }\<close>.\<close>

definition getHourlyStats :: "database \<Rightarrow> config \<Rightarrow> date \<Rightarrow> int \<Rightarrow> int \<Rightarrow> int list" where
  "getHourlyStats db cfg d now tz =
     (let hourlyMinutes = replicate 24 0
      in if \<not> isAvailable db \<or> \<not> initialized db then hourlyMinutes
         else
           (let activities = getActivityForDate db d
            in if length activities = 0 then hourlyMinutes
               else hourly_finish tz d now
                      (foldl (hourly_step tz (productiveApps cfg) (productiveWebsites cfg))
                         (hourlyMinutes, False, None) activities)))"

text \<open>
  The histogram "given one day's sessions": the helper of the source applied to each
  reconstructed session in turn.
\<close>

definition hourlyFromSessions :: "int \<Rightarrow> session list \<Rightarrow> int list" where
  "hourlyFromSessions tz ss =
     foldl (\<lambda>hourlyMinutes s. addTimeToHours tz hourlyMinutes (start s) (end' s))
       (replicate 24 0) ss"

section \<open>Regular expressions\<close>

text \<open>
  The patterns of projects.js are regular expressions with one capture group, of the shape
  \<open>pre (grp) post\<close>. \<open>re\<close> is the syntax of the three parts: a character class, the empty
  pattern, concatenation, alternation \<open>a|b\<close> and the greedy star \<open>a*\<close>.
\<close>

datatype re = Cls "nat \<Rightarrow> bool" | Eps | Cat re re | Alt re re | Star re





definition chr :: "nat \<Rightarrow> re" where
  "chr c = Cls (\<lambda>x. x = c)"

definition lit :: "jsstring \<Rightarrow> re" where
  "lit s = foldr (\<lambda>c r. Cat (chr c) r) s Eps"










section \<open>Project detection (projects.js)\<close>












section \<open>Properties of event streams and sample data\<close>

text \<open>
  The accounting invariant of the reconstruction: every recorded session has a positive
  duration, which is \<open>(end - start) / 1000\<close>, and \<open>totalWorkSeconds\<close> is the sum of the
  recorded durations.
\<close>

definition totals_ok :: "'a totals_scheme \<Rightarrow> bool" where
  "totals_ok st =
     ((\<forall>s\<in>set (sessions st). 0 < duration s \<and> duration s = of_int (end' s - start s) / 1000)
      \<and> totalWorkSeconds st = sum_list (map duration (sessions st)))"

text \<open>An activity event (not an AFK marker) that the classifier accepts.\<close>

definition productive_sample :: "jsstring list \<Rightarrow> jsstring list \<Rightarrow> activity \<Rightarrow> bool" where
  "productive_sample apps sites a =
     (is_afk a = 0 \<and> isProductiveActivity (app_name a) (window_title a) apps sites)"

text \<open>
  The locals of the handler of \<open>get-hourly-stats\<close> that correspond to the locals of the
  reconstruction: the histogram of the sessions recorded so far, and the same \<open>isAfk\<close> and
  \<open>sessionStart\<close>.
\<close>

definition hourly_of :: "int \<Rightarrow> walk \<Rightarrow> int list \<times> bool \<times> int option" where
  "hourly_of tz st = (hourlyFromSessions tz (sessions st), isAfk st, sessionStart st)"

text \<open>
  Inserting an AFK pair into a productive run. \<open>sess s e\<close> is the session the
  reconstruction records from \<open>s\<close> to \<open>e\<close>. The three relations compare the walk over the
  original stream (\<open>st0\<close>, \<open>R0\<close>) with the walk over the stream with the pair inserted
  (\<open>st1\<close>, \<open>R1\<close>), where \<open>s\<close> is the start of the run, \<open>a\<close> the instant of the AFK start and
  \<open>r\<close> the first productive sample after the pair: while the run is still open
  (\<open>split_open\<close>), after it has been closed at some \<open>e\<close> (\<open>split_closed\<close>), and on the
  results (\<open>split_result\<close>).
\<close>

definition sess :: "int \<Rightarrow> int \<Rightarrow> session" where
  "sess s e = \<lparr>start = s, end' = e, duration = of_int (e - s) / 1000\<rparr>"

definition split_open :: "int \<Rightarrow> int \<Rightarrow> int \<Rightarrow> session list \<Rightarrow> walk \<Rightarrow> walk \<Rightarrow> bool" where
  "split_open s a r S st0 st1 =
     (sessionStart st0 = Some s \<and> sessionStart st1 = Some r \<and> \<not> isAfk st0 \<and> \<not> isAfk st1
      \<and> lastTimestamp st0 = lastTimestamp st1
      \<and> (\<exists>l. lastTimestamp st0 = Some l \<and> r \<le> l)
      \<and> sessions st0 = S \<and> sessions st1 = S @ [sess s a]
      \<and> totalWorkSeconds st1 = totalWorkSeconds st0 + of_int (a - s) / 1000)"

definition split_closed :: "int \<Rightarrow> int \<Rightarrow> int \<Rightarrow> session list \<Rightarrow> walk \<Rightarrow> walk \<Rightarrow> bool" where
  "split_closed s a r S st0 st1 =
     (sessionStart st0 = sessionStart st1 \<and> isAfk st0 = isAfk st1
      \<and> lastTimestamp st0 = lastTimestamp st1
      \<and> (\<exists>e Z. r \<le> e
            \<and> sessions st0 = S @ [sess s e] @ Z
            \<and> sessions st1 = S @ [sess s a] @ (if r < e then [sess r e] else []) @ Z)
      \<and> totalWorkSeconds st1 = totalWorkSeconds st0 - of_int (r - a) / 1000)"

definition split_result ::
  "int \<Rightarrow> int \<Rightarrow> int \<Rightarrow> session list \<Rightarrow> 'a totals_scheme \<Rightarrow> 'b totals_scheme \<Rightarrow> bool" where
  "split_result s a r S R0 R1 =
     ((\<exists>e Z. r \<le> e
          \<and> sessions R0 = S @ [sess s e] @ Z
          \<and> sessions R1 = S @ [sess s a] @ (if r < e then [sess r e] else []) @ Z)
      \<and> totalWorkSeconds R1 = totalWorkSeconds R0 - of_int (r - a) / 1000)"

text \<open>
  The test of the streak on one day: a summary is stored for the day and its
  \<open>total_work_seconds\<close> reaches the goal.
\<close>

definition goal_met :: "database \<Rightarrow> rat \<Rightarrow> date \<Rightarrow> bool" where
  "goal_met db goalSeconds d =
     (case getDailySummary db d of
        Some summary \<Rightarrow> goalSeconds \<le> or_zero (total_work_seconds summary)
      | None \<Rightarrow> False)"

text \<open>
  Sample rows as \<open>logActivity\<close> writes them: an activity sample, and an AFK marker of type
  \<open>start\<close> or \<open>end\<close>. \<open>clock h m\<close> is the instant \<open>h:m\<close> UTC on 2024-01-15, day 19737.
\<close>

definition sample :: "int \<Rightarrow> string \<Rightarrow> string \<Rightarrow> activity" where
  "sample t app title =
     \<lparr>timestamp = t, app_name = Some (js app), window_title = Some (js title),
      is_afk = 0, afk_type = None\<rparr>"

definition afk_marker :: "int \<Rightarrow> string \<Rightarrow> activity" where
  "afk_marker t kind =
     \<lparr>timestamp = t, app_name = None, window_title = None, is_afk = 1,
      afk_type = Some (js kind)\<rparr>"

definition clock :: "int \<Rightarrow> int \<Rightarrow> int" where
  "clock h m = 19737 * 86400000 + h * 3600000 + m * 60000"

definition open_db :: "activity list \<Rightarrow> summary list \<Rightarrow> database" where
  "open_db rows summaries =
     \<lparr>available = True, initialized = True, opens = True, activity_log = rows,
      daily_summary = summaries\<rparr>"

text \<open>A summary row as \<open>updateDailySummaryInDB\<close> writes it, with the goal of that time.\<close>

definition day_summary :: "date \<Rightarrow> rat \<Rightarrow> rat \<Rightarrow> summary" where
  "day_summary d secs goal =
     \<lparr>summary.date = d, total_work_seconds = Some secs, goal_seconds = Some goal,
      sessions_count = Some 1, productive_seconds = None, projects_json = None\<rparr>"

section \<open>Strings: the substring test\<close>

lemma startsWith_iff: "startsWith s sub \<longleftrightarrow> (\<exists>q. s = sub @ q)"
  by (induction s sub rule: startsWith.induct) auto

lemma str_includes_iff: "str_includes s sub \<longleftrightarrow> (\<exists>p q. s = p @ sub @ q)"
proof (induction s)
  case Nil
  then show ?case by auto
next
  case (Cons x xs)
  show ?case
  proof
    assume "str_includes (x # xs) sub"
    then consider "startsWith (x # xs) sub" | "str_includes xs sub" by auto
    then show "\<exists>p q. x # xs = p @ sub @ q"
    proof cases
      case 1
      then obtain q where "x # xs = sub @ q" by (auto simp: startsWith_iff)
      then have "x # xs = [] @ sub @ q" by simp
      then show ?thesis by blast
    next
      case 2
      then obtain p q where "xs = p @ sub @ q" using Cons.IH by blast
      then have "x # xs = (x # p) @ sub @ q" by simp
      then show ?thesis by blast
    qed
  next
    assume "\<exists>p q. x # xs = p @ sub @ q"
    then obtain p q where pq: "x # xs = p @ sub @ q" by blast
    show "str_includes (x # xs) sub"
    proof (cases p)
      case Nil
      with pq have "startsWith (x # xs) sub" by (auto simp: startsWith_iff)
      then show ?thesis by simp
    next
      case (Cons y p')
      with pq have "xs = p' @ sub @ q" by simp
      then have "str_includes xs sub" using Cons.IH by blast
      then show ?thesis by simp
    qed
  qed
qed

lemma substring_of_code: "substring_of sub s = str_includes s sub"
  by (simp add: substring_of_def str_includes_iff)

lemma list_ex_substring: "list_ex (\<lambda>x. str_includes s x) xs = (\<exists>x\<in>set xs. substring_of x s)"
  by (simp add: list_ex_iff substring_of_code)

section \<open>The productivity classifier\<close>

text \<open>
  Claim C3. A string is absent when it is \<open>null\<close>, \<open>undefined\<close> or empty, which is what the
  code tests (\<open>!appName\<close>, \<open>if (windowTitle)\<close>). For all arguments, the classifier returns
  false when \<open>appName\<close> is absent; true when \<open>appName\<close> contains an entry of
  \<open>productiveApps\<close>; otherwise, when \<open>appName\<close> contains one of Safari, Google Chrome,
  Chrome, Firefox, Edge, Brave, it returns true if and only if \<open>windowTitle\<close> is present and
  contains an entry of \<open>productiveWebsites\<close>; and false in every other case.
\<close>

theorem isProductiveActivity_cases:
  "(\<not> truthy appName \<longrightarrow> \<not> isProductiveActivity appName windowTitle apps sites) \<and>
   (truthy appName \<and> (\<exists>app\<in>set apps. substring_of app (or_empty appName)) \<longrightarrow>
      isProductiveActivity appName windowTitle apps sites) \<and>
   (truthy appName \<and> \<not> (\<exists>app\<in>set apps. substring_of app (or_empty appName)) \<and>
    (\<exists>b\<in>{js ''Safari'', js ''Google Chrome'', js ''Chrome'', js ''Firefox'', js ''Edge'',
          js ''Brave''}. substring_of b (or_empty appName)) \<longrightarrow>
      (isProductiveActivity appName windowTitle apps sites \<longleftrightarrow>
         truthy windowTitle \<and> (\<exists>site\<in>set sites. substring_of site (or_empty windowTitle)))) \<and>
   (truthy appName \<and> \<not> (\<exists>app\<in>set apps. substring_of app (or_empty appName)) \<and>
    \<not> (\<exists>b\<in>{js ''Safari'', js ''Google Chrome'', js ''Chrome'', js ''Firefox'', js ''Edge'',
            js ''Brave''}. substring_of b (or_empty appName)) \<longrightarrow>
      \<not> isProductiveActivity appName windowTitle apps sites)"
proof -
  have b: "(\<exists>b\<in>set browsers. substring_of b (or_empty appName)) \<longleftrightarrow>
      (\<exists>b\<in>{js ''Safari'', js ''Google Chrome'', js ''Chrome'', js ''Firefox'', js ''Edge'',
          js ''Brave''}. substring_of b (or_empty appName))"
    by (auto simp: browsers_def)
  show ?thesis
    unfolding isProductiveActivity_def list_ex_substring b by simp
qed

text \<open>The four cases at concrete samples, among them those of the tests of the repository.\<close>

theorem isProductiveActivity_cases_witness:
  "\<not> isProductiveActivity None (Some (js ''notes'')) [js ''VSCode''] [js ''github.com''] \<and>
   \<not> isProductiveActivity (Some []) (Some (js ''notes'')) [js ''VSCode''] [js ''github.com''] \<and>
   isProductiveActivity (Some (js ''VSCode'')) None [js ''VSCode''] [js ''github.com''] \<and>
   isProductiveActivity (Some (js ''Google Chrome'')) (Some (js ''github.com - repo''))
     [js ''VSCode''] [js ''github.com''] \<and>
   \<not> isProductiveActivity (Some (js ''Google Chrome'')) (Some (js ''YouTube - Video''))
     [js ''VSCode''] [js ''github.com''] \<and>
   \<not> isProductiveActivity (Some (js ''Safari'')) None [js ''VSCode''] [js ''github.com''] \<and>
   \<not> isProductiveActivity (Some (js ''Slack'')) (Some (js ''Chat'')) [js ''VSCode'']
     [js ''github.com'']"
  using isProductiveActivity_cases [of None "Some (js ''notes'')" "[js ''VSCode'']" "[js ''github.com'']"]
    isProductiveActivity_cases [of "Some []" "Some (js ''notes'')" "[js ''VSCode'']" "[js ''github.com'']"]
    isProductiveActivity_cases [of "Some (js ''VSCode'')" None "[js ''VSCode'']" "[js ''github.com'']"]
    isProductiveActivity_cases [of "Some (js ''Google Chrome'')" "Some (js ''github.com - repo'')"
      "[js ''VSCode'']" "[js ''github.com'']"]
    isProductiveActivity_cases [of "Some (js ''Google Chrome'')" "Some (js ''YouTube - Video'')"
      "[js ''VSCode'']" "[js ''github.com'']"]
    isProductiveActivity_cases [of "Some (js ''Safari'')" None "[js ''VSCode'']" "[js ''github.com'']"]
    isProductiveActivity_cases [of "Some (js ''Slack'')" "Some (js ''Chat'')" "[js ''VSCode'']"
      "[js ''github.com'']"]
  by (simp add: substring_of_code js_def)

section \<open>Work-time analysis of a day without events\<close>

lemma calculateWorkTimeForDate_empty:
  "getActivityForDate db d = [] \<Longrightarrow> calculateWorkTimeForDate db d apps sites now = None"
  by (simp add: calculateWorkTimeForDate_def)

text \<open>
  Claim C5. When the event list of the queried date is empty, the work-time analysis
  returns the zero-filled result: \<open>totalSeconds = 0\<close>, \<open>sessionsCount = 0\<close> and no sessions
  (the reconstruction itself returns \<open>null\<close> there, which the analysis replaces).
\<close>

theorem analyzeWorkTime_empty:
  assumes "getActivityForDate db (case targetDate of Some t \<Rightarrow> t | None \<Rightarrow> date_of now) = []"
  shows "analyzeWorkTime db cfg targetDate now =
           createEmptyResult (case targetDate of Some t \<Rightarrow> t | None \<Rightarrow> date_of now)
         \<and> totalSeconds (totalWorkTime (analyzeWorkTime db cfg targetDate now)) = 0
         \<and> analysis.sessionsCount (analyzeWorkTime db cfg targetDate now) = 0
         \<and> analysis.sessions (analyzeWorkTime db cfg targetDate now) = []"
proof -
  let ?d = "case targetDate of Some t \<Rightarrow> t | None \<Rightarrow> date_of now"
  have "calculateWorkTimeForDate db ?d (getProductiveApps cfg) (getProductiveWebsites cfg) now
          = None"
    using assms by (rule calculateWorkTimeForDate_empty)
  then have "analyzeWorkTime db cfg targetDate now = createEmptyResult ?d"
    by (simp add: analyzeWorkTime_def Let_def)
  then show ?thesis
    by (simp add: createEmptyResult_def)
qed

theorem analyzeWorkTime_empty_witness:
  "getActivityForDate
     \<lparr>available = True, initialized = True, opens = True,
      activity_log =
        [\<lparr>timestamp = 1705311000000, app_name = Some (js ''VSCode''),
          window_title = Some (js ''main.js''), is_afk = 0, afk_type = None\<rparr>],
      daily_summary = []\<rparr> 19738 = []
   \<and> analysis.sessionsCount
       (analyzeWorkTime
          \<lparr>available = True, initialized = True, opens = True,
           activity_log =
             [\<lparr>timestamp = 1705311000000, app_name = Some (js ''VSCode''),
               window_title = Some (js ''main.js''), is_afk = 0, afk_type = None\<rparr>],
           daily_summary = []\<rparr>
          \<lparr>productiveApps = [js ''VSCode''], productiveWebsites = [], dailyGoalMinutes = 480\<rparr>
          (Some 19738) 1705320000000) = 0"
  using analyzeWorkTime_empty [where db =
      "\<lparr>available = True, initialized = True, opens = True,
        activity_log =
          [\<lparr>timestamp = 1705311000000, app_name = Some (js ''VSCode''),
            window_title = Some (js ''main.js''), is_afk = 0, afk_type = None\<rparr>],
        daily_summary = []\<rparr>"
      and targetDate = "Some 19738" and now = 1705320000000 and cfg =
      "\<lparr>productiveApps = [js ''VSCode''], productiveWebsites = [], dailyGoalMinutes = 480\<rparr>"]
  by (simp add: getActivityForDate_def date_of_def createEmptyResult_def)

section \<open>Writing a daily summary\<close>

lemma date_on_conflict_update: "summary.date (on_conflict_update e r) = summary.date r"
  by (simp add: on_conflict_update_def)

lemma map_date_upsert:
  "map summary.date (upsert e rows) =
     (if list_ex (\<lambda>r. summary.date r = summary.date e) rows then map summary.date rows
      else map summary.date rows @ [summary.date e])"
  by (simp add: upsert_def date_on_conflict_update)

lemma distinct_upsert:
  "distinct (map summary.date rows) \<Longrightarrow> distinct (map summary.date (upsert e rows))"
  by (auto simp: map_date_upsert list_ex_iff)

lemma find_map_update:
  "find (\<lambda>r. summary.date r = d)
     (map (\<lambda>r. if summary.date r = d' then on_conflict_update e r else r) rows) =
   (if d = d' then map_option (on_conflict_update e) (find (\<lambda>r. summary.date r = d) rows)
    else find (\<lambda>r. summary.date r = d) rows)"
  by (induction rows) (auto simp: date_on_conflict_update)

lemma find_None_iff_date: "find (\<lambda>r. summary.date r = d) rows = None \<longleftrightarrow> d \<notin> set (map summary.date rows)"
  by (induction rows) auto

lemma find_append: "find P (xs @ ys) = (case find P xs of Some x \<Rightarrow> Some x | None \<Rightarrow> find P ys)"
  by (induction xs) auto

lemma find_upsert_same:
  "find (\<lambda>r. summary.date r = summary.date e) (upsert e rows) =
     Some (case find (\<lambda>r. summary.date r = summary.date e) rows of
             Some r \<Rightarrow> on_conflict_update e r
           | None \<Rightarrow> e)"
proof (cases "find (\<lambda>r. summary.date r = summary.date e) rows")
  case None
  then have "\<not> list_ex (\<lambda>r. summary.date r = summary.date e) rows"
    by (auto simp: find_None_iff list_ex_iff)
  with None show ?thesis
    by (simp add: upsert_def find_append)
next
  case (Some r)
  then have "list_ex (\<lambda>r. summary.date r = summary.date e) rows"
    by (auto simp: find_Some_iff list_ex_iff)
  with Some show ?thesis
    by (simp add: upsert_def find_map_update)
qed

lemma find_upsert_other:
  "d \<noteq> summary.date e \<Longrightarrow>
   find (\<lambda>r. summary.date r = d) (upsert e rows) = find (\<lambda>r. summary.date r = d) rows"
  by (simp add: upsert_def find_map_update find_append split: option.splits)

lemma init_after_init: "initialized db \<or> init db \<Longrightarrow> initialized (after_init db)"
  by (auto simp: after_init_def init_def split: if_splits)

text \<open>
  Claim C9. Writing a daily summary for a date keeps the dates of the table distinct (at
  most one row per date); the row of that date then holds the new \<open>total_work_seconds\<close>,
  \<open>goal_seconds\<close> and \<open>sessions_count\<close>, and its \<open>productive_seconds\<close> and \<open>projects_json\<close>
  are the values stored before whenever the write supplies \<open>null\<close> for them. The rows of
  the other dates are not touched.
\<close>

theorem updateDailySummary_merge:
  assumes ready: "initialized db \<or> init db"
      and uniq: "distinct (map summary.date (daily_summary db))"
  shows "let db' = snd (updateDailySummary db d tot goal cnt productiveSecs projectsJs);
             old = getDailySummary db d
         in fst (updateDailySummary db d tot goal cnt productiveSecs projectsJs)
            \<and> distinct (map summary.date (daily_summary db'))
            \<and> (\<exists>r. getDailySummary db' d = Some r
                  \<and> total_work_seconds r = Some tot
                  \<and> goal_seconds r = Some goal
                  \<and> sessions_count r = Some cnt
                  \<and> productive_seconds r =
                      (case productiveSecs of
                         Some v \<Rightarrow> Some v
                       | None \<Rightarrow> (case old of Some r0 \<Rightarrow> productive_seconds r0 | None \<Rightarrow> None))
                  \<and> projects_json r =
                      (case projectsJs of
                         Some v \<Rightarrow> Some v
                       | None \<Rightarrow> (case old of Some r0 \<Rightarrow> projects_json r0 | None \<Rightarrow> None)))
            \<and> (\<forall>d'. d' \<noteq> d \<longrightarrow> getDailySummary db' d' = getDailySummary db d')"
proof -
  let ?e = "\<lparr>summary.date = d, total_work_seconds = Some tot, goal_seconds = Some goal,
             sessions_count = Some cnt, productive_seconds = productiveSecs,
             projects_json = projectsJs\<rparr>"
  let ?db' = "snd (updateDailySummary db d tot goal cnt productiveSecs projectsJs)"
  have upd: "updateDailySummary db d tot goal cnt productiveSecs projectsJs =
               (True, (after_init db)\<lparr>daily_summary := upsert ?e (daily_summary db)\<rparr>)"
    using ready by (auto simp: updateDailySummary_def)
  have rows: "daily_summary ?db' = upsert ?e (daily_summary db)"
    by (simp add: upd)
  have ready': "initialized ?db'"
    using init_after_init [OF ready] by (simp add: upd)
  have get': "getDailySummary ?db' x = find (\<lambda>r. summary.date r = x) (upsert ?e (daily_summary db))"
    for x
    using ready' by (simp add: getDailySummary_def rows)
  have get: "getDailySummary db x = find (\<lambda>r. summary.date r = x) (daily_summary db)" for x
    using ready by (auto simp: getDailySummary_def)
  have same: "getDailySummary ?db' d =
      Some (case getDailySummary db d of Some r \<Rightarrow> on_conflict_update ?e r | None \<Rightarrow> ?e)"
    using find_upsert_same [of ?e "daily_summary db"] by (simp add: get' get)
  have other: "getDailySummary ?db' d' = getDailySummary db d'" if "d' \<noteq> d" for d'
    using find_upsert_other [of d' ?e "daily_summary db"] that by (simp add: get' get)
  have dist: "distinct (map summary.date (daily_summary ?db'))"
    using distinct_upsert [OF uniq] by (simp add: rows)
  have fields: "\<exists>r. getDailySummary ?db' d = Some r
                  \<and> total_work_seconds r = Some tot
                  \<and> goal_seconds r = Some goal
                  \<and> sessions_count r = Some cnt
                  \<and> productive_seconds r =
                      (case productiveSecs of
                         Some v \<Rightarrow> Some v
                       | None \<Rightarrow> (case getDailySummary db d of
                                    Some r0 \<Rightarrow> productive_seconds r0 | None \<Rightarrow> None))
                  \<and> projects_json r =
                      (case projectsJs of
                         Some v \<Rightarrow> Some v
                       | None \<Rightarrow> (case getDailySummary db d of
                                    Some r0 \<Rightarrow> projects_json r0 | None \<Rightarrow> None))"
    unfolding same
    by (cases "getDailySummary db d"; cases productiveSecs; cases projectsJs)
       (simp_all add: on_conflict_update_def)
  show ?thesis
    unfolding Let_def using dist fields other by (simp add: upd)
qed

theorem updateDailySummary_merge_witness:
  "\<exists>r. getDailySummary
     (snd (updateDailySummary
        \<lparr>available = True, initialized = True, opens = True, activity_log = [],
         daily_summary =
           [\<lparr>summary.date = 19737, total_work_seconds = Some 14400, goal_seconds = Some 28800,
             sessions_count = Some 2, productive_seconds = Some 1200,
             projects_json = Some (js ''{}'')\<rparr>]\<rparr>
        19737 28800 30000 5 None None)) 19737 = Some r
      \<and> total_work_seconds r = Some 28800 \<and> goal_seconds r = Some 30000
      \<and> sessions_count r = Some 5 \<and> productive_seconds r = Some 1200
      \<and> projects_json r = Some (js ''{}'')"
  using updateDailySummary_merge [where db =
      "\<lparr>available = True, initialized = True, opens = True, activity_log = [],
        daily_summary =
          [\<lparr>summary.date = 19737, total_work_seconds = Some 14400, goal_seconds = Some 28800,
            sessions_count = Some 2, productive_seconds = Some 1200,
            projects_json = Some (js ''{}'')\<rparr>]\<rparr>"
      and d = 19737 and tot = 28800 and goal = 30000 and cnt = 5
      and productiveSecs = None and projectsJs = None]
  by (auto simp: Let_def getDailySummary_def)

section \<open>The accounting invariant of the reconstruction\<close>

lemma push_session_ok: "totals_ok st \<Longrightarrow> totals_ok (push_session s e st)"
  by (simp add: totals_ok_def push_session_def Let_def)

lemma walk_step_ok: "totals_ok st \<Longrightarrow> totals_ok (walk_step apps sites st a)"
proof -
  assume ok: "totals_ok st"
  have upd: "totals_ok (x\<lparr>sessionStart := v\<rparr>) = totals_ok x"
            "totals_ok (x\<lparr>isAfk := b\<rparr>) = totals_ok x"
            "totals_ok (x\<lparr>lastTimestamp := l\<rparr>) = totals_ok x"
            "totals_ok (x\<lparr>lastWasProductive := b\<rparr>) = totals_ok x"
    for x :: walk and v b l
    by (simp_all add: totals_ok_def)
  show ?thesis
    using ok push_session_ok [OF ok]
    by (simp add: walk_step_def Let_def upd split: option.splits)
qed

lemma walk_foldl_ok:
  "totals_ok st \<Longrightarrow> totals_ok (foldl (walk_step apps sites) st activities)"
  by (induction activities arbitrary: st) (simp_all add: walk_step_ok)

lemma walk_init_ok: "totals_ok walk_init"
  by (simp add: totals_ok_def walk_init_def)

lemma walk_finish_ok: "totals_ok st \<Longrightarrow> totals_ok (walk_finish d now st)"
  by (simp add: walk_finish_def Let_def push_session_ok split: option.splits)

lemma reconstruct_ok: "totals_ok (reconstruct activities d apps sites now)"
proof -
  have "totals_ok (walk_finish d now (foldl (walk_step apps sites) walk_init activities))"
    by (intro walk_finish_ok walk_foldl_ok walk_init_ok)
  then show ?thesis
    by (simp add: reconstruct_def Let_def totals_ok_def)
qed

lemma reconstruct_count:
  "sessionsCount (reconstruct activities d apps sites now)
     = length (sessions (reconstruct activities d apps sites now))"
  by (simp add: reconstruct_def Let_def)

text \<open>
  Claim C4. Whenever the reconstruction returns a result, \<open>totalWorkSeconds\<close> is not
  negative, every recorded session has a positive duration (a session whose computed
  duration is not positive is neither listed nor counted), \<open>totalWorkSeconds\<close> is the sum
  of the recorded durations, and \<open>sessionsCount\<close> is the number of recorded sessions.
\<close>

theorem calculateWorkTimeForDate_totals:
  assumes "calculateWorkTimeForDate db d apps sites now = Some r"
  shows "0 \<le> totalWorkSeconds r
         \<and> (\<forall>s\<in>set (sessions r). 0 < duration s \<and> duration s = of_int (end' s - start s) / 1000)
         \<and> totalWorkSeconds r = sum_list (map duration (sessions r))
         \<and> sessionsCount r = length (sessions r)"
proof -
  from assms have r: "r = reconstruct (getActivityForDate db d) d apps sites now"
    by (simp add: calculateWorkTimeForDate_def Let_def split: if_splits)
  have ok: "totals_ok r"
    unfolding r by (rule reconstruct_ok)
  then have pos: "\<forall>s\<in>set (sessions r). 0 < duration s"
    by (simp add: totals_ok_def)
  then have "0 \<le> sum_list (map duration (sessions r))"
    by (intro sum_list_nonneg) auto
  with ok show ?thesis
    by (simp add: totals_ok_def r reconstruct_count)
qed

text \<open>
  A day with a duplicate timestamp: VSCode and Slack are both sampled at 09:00, so the
  session opened at 09:00 has duration zero and is dropped; the session 09:30 to 10:00 is
  recorded.
\<close>

theorem calculateWorkTimeForDate_totals_witness:
  "calculateWorkTimeForDate
     (open_db [sample (clock 9 0) ''VSCode'' ''main.js'', sample (clock 9 0) ''Slack'' ''chat'',
               sample (clock 9 30) ''VSCode'' ''main.js'', sample (clock 10 0) ''Slack'' ''chat''] [])
     19737 [js ''VSCode''] [] (clock 36 0)
   = Some \<lparr>totalWorkSeconds = 1800,
            sessions = [\<lparr>start = clock 9 30, end' = clock 10 0, duration = 1800\<rparr>],
            sessionsCount = 1\<rparr>
   \<and> (0::rat) \<le> 1800 \<and> (1800::rat) = of_int (clock 10 0 - clock 9 30) / 1000"
proof -
  have h: "calculateWorkTimeForDate
     (open_db [sample (clock 9 0) ''VSCode'' ''main.js'', sample (clock 9 0) ''Slack'' ''chat'',
               sample (clock 9 30) ''VSCode'' ''main.js'', sample (clock 10 0) ''Slack'' ''chat''] [])
     19737 [js ''VSCode''] [] (clock 36 0)
   = Some \<lparr>totalWorkSeconds = 1800,
            sessions = [\<lparr>start = clock 9 30, end' = clock 10 0, duration = 1800\<rparr>],
            sessionsCount = 1\<rparr>"
    by (simp add: calculateWorkTimeForDate_def getActivityForDate_def date_of_def reconstruct_def
        walk_step_def walk_init_def walk_finish_def push_session_def sample_def clock_def
        open_db_def isProductiveActivity_def js_def browsers_def Let_def)
  show ?thesis
    using calculateWorkTimeForDate_totals [OF h] h by simp
qed

section \<open>A day of productive samples\<close>

lemma walk_step_productive:
  assumes "productive_sample apps sites a" and "\<not> isAfk st"
  shows "walk_step apps sites st a =
           st\<lparr>sessionStart := Some (case sessionStart st of None \<Rightarrow> timestamp a | Some s \<Rightarrow> s),
              lastTimestamp := Some (timestamp a), lastWasProductive := True\<rparr>"
  using assms by (simp add: walk_step_def productive_sample_def split: option.splits)

lemma walk_productive_run:
  assumes "activities \<noteq> []" and "\<forall>a\<in>set activities. productive_sample apps sites a"
      and "\<not> isAfk st"
  shows "foldl (walk_step apps sites) st activities =
           st\<lparr>sessionStart := Some (case sessionStart st of
                                       None \<Rightarrow> timestamp (hd activities) | Some s \<Rightarrow> s),
              lastTimestamp := Some (timestamp (last activities)), lastWasProductive := True\<rparr>"
  using assms
proof (induction activities arbitrary: st rule: list_nonempty_induct)
  case (single a)
  then show ?case by (simp add: walk_step_productive split: option.splits)
next
  case (cons a activities)
  let ?st = "walk_step apps sites st a"
  have st: "?st = st\<lparr>sessionStart := Some (case sessionStart st of None \<Rightarrow> timestamp a | Some s \<Rightarrow> s),
              lastTimestamp := Some (timestamp a), lastWasProductive := True\<rparr>"
    using cons.prems by (simp add: walk_step_productive)
  then have afk: "\<not> isAfk ?st" using cons.prems by simp
  have "foldl (walk_step apps sites) ?st activities =
          ?st\<lparr>sessionStart := Some (case sessionStart ?st of
                                       None \<Rightarrow> timestamp (hd activities) | Some s \<Rightarrow> s),
              lastTimestamp := Some (timestamp (last activities)), lastWasProductive := True\<rparr>"
    using cons.IH [OF _ afk] cons.prems by simp
  then show ?case
    using cons.hyps by (simp add: st split: option.splits)
qed

lemma sorted_hd_le_last:
  "sorted (map f xs) \<Longrightarrow> xs \<noteq> [] \<Longrightarrow> f (hd xs) \<le> f (last xs)"
  by (induction xs) (auto simp: last_conv_nth)

lemma getActivityForDate_sorted: "sorted (map timestamp (getActivityForDate db d))"
  by (simp add: getActivityForDate_def)

text \<open>
  Claim C2. For a day whose events are all productive activity samples (no AFK marker),
  \<open>totalWorkSeconds\<close> is the time elapsed from the first event to the last event, or to the
  evaluation instant when the queried date is the current date. The events come from the
  query in chronological order; for the current date the first event is not later than the
  evaluation instant.
\<close>

theorem productive_day_total:
  assumes nonempty: "getActivityForDate db d \<noteq> []"
      and prod: "\<forall>a\<in>set (getActivityForDate db d). productive_sample apps sites a"
      and past: "d = date_of now \<longrightarrow> timestamp (hd (getActivityForDate db d)) \<le> now"
  shows "\<exists>r. calculateWorkTimeForDate db d apps sites now = Some r
           \<and> totalWorkSeconds r =
               of_int ((if d = date_of now then now
                        else timestamp (last (getActivityForDate db d)))
                       - timestamp (hd (getActivityForDate db d))) / 1000"
proof -
  let ?acts = "getActivityForDate db d"
  let ?first = "timestamp (hd ?acts)"
  let ?e = "if d = date_of now then now else timestamp (last ?acts)"
  have ready: "\<not> (\<not> initialized db \<and> \<not> init db)"
    using nonempty by (auto simp: getActivityForDate_def split: if_splits)
  have calc: "calculateWorkTimeForDate db d apps sites now =
                Some (reconstruct ?acts d apps sites now)"
    using ready nonempty by (simp add: calculateWorkTimeForDate_def Let_def)
  have run: "foldl (walk_step apps sites) walk_init ?acts =
               walk_init\<lparr>sessionStart := Some ?first,
                 lastTimestamp := Some (timestamp (last ?acts)), lastWasProductive := True\<rparr>"
    using walk_productive_run [OF nonempty prod, of walk_init]
    by (simp add: walk_init_def)
  have le: "?first \<le> ?e"
    using past sorted_hd_le_last [OF getActivityForDate_sorted nonempty] by simp
  let ?st = "walk_init\<lparr>sessionStart := Some ?first,
                 lastTimestamp := Some (timestamp (last ?acts)), lastWasProductive := True\<rparr>"
  have fin: "walk_finish d now ?st = push_session ?first ?e ?st"
    by (simp add: walk_finish_def walk_init_def Let_def)
  have "totalWorkSeconds (push_session ?first ?e ?st) = of_int (?e - ?first) / 1000"
    using le by (auto simp: push_session_def walk_init_def Let_def)
  then have "totalWorkSeconds (reconstruct ?acts d apps sites now) = of_int (?e - ?first) / 1000"
    unfolding reconstruct_def run fin by (simp add: Let_def)
  with calc show ?thesis by simp
qed

text \<open>Samples at 09:00, 09:30 and 11:00, queried the day after and at 12:00 of the same day.\<close>

theorem productive_day_total_witness:
  "(\<exists>r. calculateWorkTimeForDate
          (open_db [sample (clock 9 0) ''VSCode'' ''a.js'', sample (clock 9 30) ''VSCode'' ''b.js'',
                    sample (clock 11 0) ''VSCode'' ''c.js''] [])
          19737 [js ''VSCode''] [] (clock 36 0) = Some r
        \<and> totalWorkSeconds r = 7200)
   \<and> (\<exists>r. calculateWorkTimeForDate
          (open_db [sample (clock 9 0) ''VSCode'' ''a.js'', sample (clock 9 30) ''VSCode'' ''b.js'',
                    sample (clock 11 0) ''VSCode'' ''c.js''] [])
          19737 [js ''VSCode''] [] (clock 12 0) = Some r
        \<and> totalWorkSeconds r = 10800)"
  using productive_day_total [where db =
        "open_db [sample (clock 9 0) ''VSCode'' ''a.js'', sample (clock 9 30) ''VSCode'' ''b.js'',
                  sample (clock 11 0) ''VSCode'' ''c.js''] []"
        and d = 19737 and apps = "[js ''VSCode'']" and sites = "[]" and now = "clock 36 0"]
      productive_day_total [where db =
        "open_db [sample (clock 9 0) ''VSCode'' ''a.js'', sample (clock 9 30) ''VSCode'' ''b.js'',
                  sample (clock 11 0) ''VSCode'' ''c.js''] []"
        and d = 19737 and apps = "[js ''VSCode'']" and sites = "[]" and now = "clock 12 0"]
  by (simp add: getActivityForDate_def date_of_def sample_def clock_def open_db_def
      productive_sample_def isProductiveActivity_def js_def)

section \<open>The streak\<close>

lemma loop_unmet:
  "\<not> goal_met db g d \<Longrightarrow> calculateStreak_loop db g streak d = streak"
  by (subst calculateStreak_loop.simps) (simp add: goal_met_def split: option.splits)

lemma loop_met:
  "goal_met db g d \<Longrightarrow>
   calculateStreak_loop db g streak d =
     (if streak + 1 > 365 then streak + 1 else calculateStreak_loop db g (streak + 1) (d - 1))"
  by (subst calculateStreak_loop.simps) (simp add: goal_met_def split: option.splits)

lemma loop_bound: "streak \<le> 365 \<Longrightarrow> calculateStreak_loop db g streak d \<le> 366"
proof (induction db g streak d rule: calculateStreak_loop.induct)
  case (1 db g streak d)
  show ?case
  proof (cases "goal_met db g d")
    case False
    then show ?thesis using 1 by (simp add: loop_unmet)
  next
    case True
    then obtain s where s: "getDailySummary db d = Some s" "g \<le> or_zero (total_work_seconds s)"
      by (auto simp: goal_met_def split: option.splits)
    show ?thesis
    proof (cases "streak + 1 > 365")
      case True
      with \<open>goal_met db g d\<close> 1 show ?thesis by (simp add: loop_met)
    next
      case False
      then have "calculateStreak_loop db g (streak + 1) (d - 1) \<le> 366"
        using 1 s by simp
      with False \<open>goal_met db g d\<close> show ?thesis by (simp add: loop_met)
    qed
  qed
qed

lemma loop_run:
  assumes "\<forall>i<k. goal_met db g (d - int i)" and "streak + k \<le> 366" and "streak \<le> 365"
  shows "calculateStreak_loop db g streak d =
           (if streak + k = 366 then 366
            else calculateStreak_loop db g (streak + k) (d - int k))"
  using assms
proof (induction k arbitrary: streak d)
  case 0
  then show ?case
    by simp
next
  case (Suc k)
  have met: "goal_met db g d" using Suc.prems(1) by force
  have rest: "\<forall>i<k. goal_met db g (d - 1 - int i)"
  proof (intro allI impI)
    fix i assume "i < k"
    then have "goal_met db g (d - int (Suc i))" using Suc.prems(1) by blast
    then show "goal_met db g (d - 1 - int i)" by (simp add: algebra_simps)
  qed
  have le: "streak + 1 + k \<le> 366" using Suc.prems(2) by simp
  show ?case
  proof (cases "streak + 1 > 365")
    case True
    then have "k = 0" "streak = 365" using Suc.prems(2) by auto
    then show ?thesis using met by (simp add: loop_met)
  next
    case False
    have "calculateStreak_loop db g streak d = calculateStreak_loop db g (streak + 1) (d - 1)"
      using met False by (simp add: loop_met)
    also have "\<dots> = (if streak + 1 + k = 366 then 366
            else calculateStreak_loop db g (streak + 1 + k) (d - 1 - int k))"
      using Suc.IH [OF rest le] False by simp
    finally show ?thesis by (simp add: algebra_simps)
  qed
qed

lemma day_summary_sel:
  "summary.date (day_summary d secs goal) = d"
  "total_work_seconds (day_summary d secs goal) = Some secs"
  by (simp_all add: day_summary_def)

lemma calculateStreak_le_366: "calculateStreak db cfg now \<le> 366"
  by (simp add: calculateStreak_def Let_def loop_bound)

lemma find_day_summary:
  "i < n \<Longrightarrow>
   find (\<lambda>r. summary.date r = d - int i) (map (\<lambda>j. day_summary (d - int j) secs goal) [0..<n])
     = Some (day_summary (d - int i) secs goal)"
proof (induction n)
  case 0
  then show ?case by simp
next
  case (Suc n)
  show ?case
  proof (cases "i < n")
    case True
    then show ?thesis using Suc.IH by (simp add: find_append)
  next
    case False
    then have i: "i = n" using Suc.prems by simp
    have "find (\<lambda>r. summary.date r = d - int n) (map (\<lambda>j. day_summary (d - int j) secs goal) [0..<n]) = None"
      by (auto simp: find_None_iff day_summary_sel)
    then show ?thesis
      by (simp add: i find_append day_summary_sel)
  qed
qed

lemma calculateStreak_run:
  assumes up: "isAvailable db" "initialized db"
      and met: "\<forall>i<k. goal_met db (of_int (dailyGoalMinutes cfg * 60)) (date_of now - int i)"
      and unmet: "\<not> goal_met db (of_int (dailyGoalMinutes cfg * 60)) (date_of now - int k)"
      and k: "k \<le> 365"
  shows "calculateStreak db cfg now = k"
proof -
  have "calculateStreak_loop db (of_int (dailyGoalMinutes cfg * 60)) 0 (date_of now) =
          calculateStreak_loop db (of_int (dailyGoalMinutes cfg * 60)) k (date_of now - int k)"
    using loop_run [OF met, of 0] k by simp
  also have "\<dots> = k"
    using unmet by (rule loop_unmet)
  finally show ?thesis
    using up by (simp add: calculateStreak_def Let_def)
qed

text \<open>
  Claim C8. The streak counts the consecutive days back from today that meet the goal
  (\<open>calculateStreak_run\<close>), and the loop stops once the count exceeds 365: the value
  returned is at most 366 (\<open>calculateStreak_le_366\<close>), and it is 366, not 365, when the
  366 days ending today all meet the goal.
\<close>

theorem calculateStreak_reaches_366:
  "calculateStreak
     (open_db [] (map (\<lambda>j. day_summary (19737 - int j) 28800 28800) [0..<366]))
     \<lparr>productiveApps = [], productiveWebsites = [], dailyGoalMinutes = 480\<rparr>
     (clock 12 0) = 366"
proof -
  let ?db = "open_db [] (map (\<lambda>j. day_summary (19737 - int j) 28800 28800) [0..<366])"
  have met: "\<forall>i<366. goal_met ?db 28800 (19737 - int i)"
    by (simp add: goal_met_def getDailySummary_def open_db_def find_day_summary day_summary_sel)
  have "calculateStreak_loop ?db 28800 0 19737 = 366"
    using loop_run [OF met, of 0] by simp
  then show ?thesis
    by (simp add: calculateStreak_def isAvailable_def open_db_def date_of_def clock_def)
qed

text \<open>With these 366 rows the streak exceeds 365.\<close>

theorem calculateStreak_reaches_366_witness:
  "\<not> calculateStreak
       (open_db [] (map (\<lambda>j. day_summary (19737 - int j) 28800 28800) [0..<366]))
       \<lparr>productiveApps = [], productiveWebsites = [], dailyGoalMinutes = 480\<rparr>
       (clock 12 0) \<le> 365"
  using calculateStreak_reaches_366 by simp

lemma find_map_same_pred:
  "(\<And>r. P (f r) = P r) \<Longrightarrow> find P (map f rows) = map_option f (find P rows)"
  by (induction rows) auto

lemma getDailySummary_snapshot:
  "getDailySummary (db\<lparr>daily_summary := map (\<lambda>r. r\<lparr>goal_seconds := f r\<rparr>) (daily_summary db)\<rparr>) d
     = map_option (\<lambda>r. r\<lparr>goal_seconds := f r\<rparr>) (getDailySummary db d)"
  by (simp add: getDailySummary_def init_def find_map_same_pred)

lemma goal_met_snapshot:
  "goal_met (db\<lparr>daily_summary := map (\<lambda>r. r\<lparr>goal_seconds := f r\<rparr>) (daily_summary db)\<rparr>) g d
     = goal_met db g d"
  by (simp add: goal_met_def getDailySummary_snapshot split: option.splits)

lemma loop_snapshot:
  "calculateStreak_loop
     (db\<lparr>daily_summary := map (\<lambda>r. r\<lparr>goal_seconds := f r\<rparr>) (daily_summary db)\<rparr>) g streak d
     = calculateStreak_loop db g streak d"
proof (induction db g streak d rule: calculateStreak_loop.induct)
  case (1 db g streak d)
  let ?db' = "db\<lparr>daily_summary := map (\<lambda>r. r\<lparr>goal_seconds := f r\<rparr>) (daily_summary db)\<rparr>"
  show ?case
  proof (cases "goal_met db g d")
    case False
    then show ?thesis
      by (simp add: loop_unmet goal_met_snapshot)
  next
    case True
    then obtain s where s: "getDailySummary db d = Some s" "g \<le> or_zero (total_work_seconds s)"
      by (auto simp: goal_met_def split: option.splits)
    show ?thesis
    proof (cases "streak + 1 > 365")
      case True
      with \<open>goal_met db g d\<close> show ?thesis
        by (simp add: loop_met goal_met_snapshot)
    next
      case False
      then have "calculateStreak_loop ?db' g (streak + 1) (d - 1)
                   = calculateStreak_loop db g (streak + 1) (d - 1)"
        using 1 s by simp
      with False \<open>goal_met db g d\<close> show ?thesis
        by (simp add: loop_met goal_met_snapshot)
    qed
  qed
qed

text \<open>
  Claim C10. The streak compares the stored \<open>total_work_seconds\<close> of each day with the goal
  of the configuration at evaluation time: replacing the \<open>goal_seconds\<close> stored in the rows
  by anything leaves the streak as it is, and two days that reached the goal of 240
  minutes stored with them make a streak of 2 under that goal and of 0 once the configured
  goal is 480 minutes.
\<close>

theorem calculateStreak_uses_current_goal:
  "calculateStreak
     (db\<lparr>daily_summary := map (\<lambda>r. r\<lparr>goal_seconds := f r\<rparr>) (daily_summary db)\<rparr>) cfg now
     = calculateStreak db cfg now
   \<and> calculateStreak
       (open_db [] [day_summary 19737 14400 14400, day_summary 19736 14400 14400])
       \<lparr>productiveApps = [], productiveWebsites = [], dailyGoalMinutes = 240\<rparr> (clock 12 0) = 2
   \<and> calculateStreak
       (open_db [] [day_summary 19737 14400 14400, day_summary 19736 14400 14400])
       \<lparr>productiveApps = [], productiveWebsites = [], dailyGoalMinutes = 480\<rparr> (clock 12 0) = 0"
proof -
  have a: "calculateStreak
     (db\<lparr>daily_summary := map (\<lambda>r. r\<lparr>goal_seconds := f r\<rparr>) (daily_summary db)\<rparr>) cfg now
     = calculateStreak db cfg now"
    by (simp add: calculateStreak_def isAvailable_def loop_snapshot Let_def)
  let ?db = "open_db [] [day_summary 19737 14400 14400, day_summary 19736 14400 14400]"
  have m0: "goal_met ?db 14400 19737" and m1: "goal_met ?db 14400 19736"
    and m2: "\<not> goal_met ?db 14400 19735" and n0: "\<not> goal_met ?db 28800 19737"
    by (simp_all add: goal_met_def getDailySummary_def open_db_def day_summary_def)
  have b: "calculateStreak ?db
       \<lparr>productiveApps = [], productiveWebsites = [], dailyGoalMinutes = 240\<rparr> (clock 12 0) = 2"
    using m0 m1 m2
    by (simp add: calculateStreak_def isAvailable_def open_db_def date_of_def clock_def loop_met
        loop_unmet)
  have c: "calculateStreak ?db
       \<lparr>productiveApps = [], productiveWebsites = [], dailyGoalMinutes = 480\<rparr> (clock 12 0) = 0"
    using n0
    by (simp add: calculateStreak_def isAvailable_def open_db_def date_of_def clock_def loop_unmet)
  from a b c show ?thesis by simp
qed

text \<open>
  The same table, whose rows all carry the goal of 14400 seconds they were written with,
  gives different streaks under the two configured goals.
\<close>

theorem calculateStreak_uses_current_goal_witness:
  "calculateStreak
     (open_db [] [day_summary 19737 14400 14400, day_summary 19736 14400 14400])
     \<lparr>productiveApps = [], productiveWebsites = [], dailyGoalMinutes = 240\<rparr> (clock 12 0)
   \<noteq> calculateStreak
       (open_db [] [day_summary 19737 14400 14400, day_summary 19736 14400 14400])
       \<lparr>productiveApps = [], productiveWebsites = [], dailyGoalMinutes = 480\<rparr> (clock 12 0)"
  using calculateStreak_uses_current_goal [where db = "open_db [] []" and f = "\<lambda>r. None"]
  by simp

section \<open>The hourly histogram\<close>

lemma addTimeToHours_empty: "\<not> current < endT \<Longrightarrow> addTimeToHours tz hm current endT = hm"
  by (subst addTimeToHours.simps) simp

lemma hourlyFromSessions_snoc:
  "hourlyFromSessions tz (ss @ [s]) = addTimeToHours tz (hourlyFromSessions tz ss) (start s) (end' s)"
  by (simp add: hourlyFromSessions_def)

lemma hourly_push_session:
  "hourlyFromSessions tz (sessions (push_session s e st))
     = addTimeToHours tz (hourlyFromSessions tz (sessions st)) s e"
  by (simp add: push_session_def Let_def hourlyFromSessions_snoc addTimeToHours_empty)

lemma push_session_locals:
  "isAfk (push_session s e st) = isAfk st"
  "sessionStart (push_session s e st) = sessionStart st"
  "lastTimestamp (push_session s e st) = lastTimestamp st"
  by (simp_all add: push_session_def Let_def)

lemma hourly_step_sim:
  assumes "isAfk st \<longrightarrow> sessionStart st = None"
  shows "hourly_step tz apps sites (hourly_of tz st) a = hourly_of tz (walk_step apps sites st a)
         \<and> (isAfk (walk_step apps sites st a) \<longrightarrow> sessionStart (walk_step apps sites st a) = None)"
  using assms
  by (auto simp: hourly_step_def hourly_of_def walk_step_def Let_def hourly_push_session
        push_session_locals split: option.splits)

lemma hourly_foldl_sim:
  assumes "isAfk st \<longrightarrow> sessionStart st = None"
  shows "foldl (hourly_step tz apps sites) (hourly_of tz st) activities
           = hourly_of tz (foldl (walk_step apps sites) st activities)"
  using assms
proof (induction activities arbitrary: st)
  case Nil
  then show ?case by simp
next
  case (Cons a activities)
  from hourly_step_sim [OF Cons.prems, of tz apps sites a]
  have step: "hourly_step tz apps sites (hourly_of tz st) a = hourly_of tz (walk_step apps sites st a)"
    and inv: "isAfk (walk_step apps sites st a) \<longrightarrow> sessionStart (walk_step apps sites st a) = None"
    by simp_all
  show ?case
    using Cons.IH [OF inv] by (simp add: step)
qed

lemma hourly_of_init: "hourly_of tz walk_init = (replicate 24 0, False, None)"
  by (simp add: hourly_of_def walk_init_def hourlyFromSessions_def)

lemma hourly_finish_today:
  "hourly_finish tz (date_of now) now (hourly_of tz st)
     = hourlyFromSessions tz (sessions (walk_finish (date_of now) now st))"
  by (simp add: hourly_finish_def hourly_of_def walk_finish_def Let_def hourly_push_session
      split: option.splits)

text \<open>
  For the current date the handler computes the histogram of the reconstructed sessions.
\<close>

lemma getHourlyStats_today:
  assumes "isAvailable db" and "initialized db" and "getActivityForDate db (date_of now) \<noteq> []"
  shows "getHourlyStats db cfg (date_of now) now tz =
           hourlyFromSessions tz
             (sessions (reconstruct (getActivityForDate db (date_of now)) (date_of now)
                          (productiveApps cfg) (productiveWebsites cfg) now))"
proof -
  have inv: "isAfk walk_init \<longrightarrow> sessionStart walk_init = None"
    by (simp add: walk_init_def)
  show ?thesis
    using assms hourly_foldl_sim [OF inv, of tz "productiveApps cfg" "productiveWebsites cfg"
        "getActivityForDate db (date_of now)"]
    by (simp add: getHourlyStats_def reconstruct_def Let_def hourly_of_init hourly_finish_today)
qed

text \<open>
  Claim C7. The histogram of the handler and the histogram of the reconstructed sessions
  differ on a past day whose last session is still open at the last event: the
  reconstruction closes that session at the last timestamp of the day, the handler closes
  an open session for the current date only and drops it otherwise. With VSCode sampled at
  09:00 and at 10:00 and the day queried on the next day, the reconstruction records the
  session from 09:00 to 10:00, whose histogram has 60 minutes in bucket 9, and the
  handler returns 24 zeros.
\<close>

theorem getHourlyStats_drops_open_session:
  "getHourlyStats
     (open_db [sample (clock 9 0) ''VSCode'' ''a.js'', sample (clock 10 0) ''VSCode'' ''b.js''] [])
     \<lparr>productiveApps = [js ''VSCode''], productiveWebsites = [], dailyGoalMinutes = 480\<rparr>
     19737 (clock 36 0) 0 = replicate 24 0
   \<and> calculateWorkTimeForDate
       (open_db [sample (clock 9 0) ''VSCode'' ''a.js'', sample (clock 10 0) ''VSCode'' ''b.js''] [])
       19737 [js ''VSCode''] [] (clock 36 0)
     = Some \<lparr>totalWorkSeconds = 3600,
              sessions = [\<lparr>start = clock 9 0, end' = clock 10 0, duration = 3600\<rparr>],
              sessionsCount = 1\<rparr>
   \<and> hourlyFromSessions 0 [\<lparr>start = clock 9 0, end' = clock 10 0, duration = 3600\<rparr>]
     = (replicate 24 0)[9 := 60]"
proof -
  have handler: "getHourlyStats
     (open_db [sample (clock 9 0) ''VSCode'' ''a.js'', sample (clock 10 0) ''VSCode'' ''b.js''] [])
     \<lparr>productiveApps = [js ''VSCode''], productiveWebsites = [], dailyGoalMinutes = 480\<rparr>
     19737 (clock 36 0) 0 = replicate 24 0"
    by (simp add: getHourlyStats_def isAvailable_def open_db_def getActivityForDate_def
        date_of_def clock_def sample_def hourly_step_def hourly_finish_def
        isProductiveActivity_def js_def Let_def)
  have recon: "calculateWorkTimeForDate
       (open_db [sample (clock 9 0) ''VSCode'' ''a.js'', sample (clock 10 0) ''VSCode'' ''b.js''] [])
       19737 [js ''VSCode''] [] (clock 36 0)
     = Some \<lparr>totalWorkSeconds = 3600,
              sessions = [\<lparr>start = clock 9 0, end' = clock 10 0, duration = 3600\<rparr>],
              sessionsCount = 1\<rparr>"
    by (simp add: calculateWorkTimeForDate_def getActivityForDate_def date_of_def
        reconstruct_def walk_step_def walk_init_def walk_finish_def push_session_def sample_def
        clock_def open_db_def isProductiveActivity_def js_def browsers_def Let_def)
  have hist: "hourlyFromSessions 0 [\<lparr>start = clock 9 0, end' = clock 10 0, duration = 3600\<rparr>]
     = (replicate 24 0)[9 := 60]"
    by code_simp
  from handler recon hist show ?thesis by simp
qed

text \<open>On that day the two histograms differ in bucket 9.\<close>

theorem getHourlyStats_drops_open_session_witness:
  "getHourlyStats
     (open_db [sample (clock 9 0) ''VSCode'' ''a.js'', sample (clock 10 0) ''VSCode'' ''b.js''] [])
     \<lparr>productiveApps = [js ''VSCode''], productiveWebsites = [], dailyGoalMinutes = 480\<rparr>
     19737 (clock 36 0) 0 ! 9 = 0
   \<and> hourlyFromSessions 0 [\<lparr>start = clock 9 0, end' = clock 10 0, duration = 3600\<rparr>] ! 9 = 60"
  using getHourlyStats_drops_open_session by simp

section \<open>An AFK pair inside a productive run\<close>

lemma push_session_sessions:
  "sessions (push_session x y st) = sessions st @ (if x < y then [sess x y] else [])"
  by (simp add: push_session_def sess_def Let_def)

lemma push_session_total:
  "totalWorkSeconds (push_session x y st)
     = totalWorkSeconds st + (if x < y then of_int (y - x) / 1000 else 0)"
  by (simp add: push_session_def Let_def)

lemma step_closed:
  assumes "split_closed s a r S st0 st1"
  shows "split_closed s a r S (walk_step apps sites st0 x) (walk_step apps sites st1 x)"
proof -
  from assms obtain e Z where
    loc: "sessionStart st0 = sessionStart st1" "isAfk st0 = isAfk st1"
         "lastTimestamp st0 = lastTimestamp st1"
    and e: "r \<le> e" and s0: "sessions st0 = S @ [sess s e] @ Z"
    and s1: "sessions st1 = S @ [sess s a] @ (if r < e then [sess r e] else []) @ Z"
    and tot: "totalWorkSeconds st1 = totalWorkSeconds st0 - of_int (r - a) / 1000"
    unfolding split_closed_def by blast
  have push: "split_closed s a r S (push_session u v st0) (push_session u v st1)" for u v
    unfolding split_closed_def push_session_locals push_session_sessions push_session_total
    using loc e s0 s1 tot
    by (intro conjI exI [of _ e] exI [of _ "Z @ (if u < v then [sess u v] else [])"]) simp_all
  have upd: "split_closed s a r S (p\<lparr>sessionStart := v1\<rparr>) (q\<lparr>sessionStart := v1\<rparr>)"
            "split_closed s a r S (p\<lparr>isAfk := v2\<rparr>) (q\<lparr>isAfk := v2\<rparr>)"
            "split_closed s a r S (p\<lparr>lastTimestamp := v3\<rparr>) (q\<lparr>lastTimestamp := v3\<rparr>)"
            "split_closed s a r S (p\<lparr>lastWasProductive := v4\<rparr>) (q\<lparr>lastWasProductive := v4\<rparr>)"
    if "split_closed s a r S p q" for p q :: walk and v1 v2 v3 v4
    using that by (simp_all add: split_closed_def)
  show ?thesis
    using assms loc
    by (auto simp: walk_step_def Let_def split: option.splits intro!: upd push)
qed


lemma step_open:
  assumes rel: "split_open s a r S st0 st1" and order: "s < a" "a \<le> r" "r \<le> timestamp x"
  shows "split_open s a r S (walk_step apps sites st0 x) (walk_step apps sites st1 x)
         \<or> split_closed s a r S (walk_step apps sites st0 x) (walk_step apps sites st1 x)"
proof -
  let ?t = "timestamp x"
  from rel have loc: "sessionStart st0 = Some s" "sessionStart st1 = Some r"
      "\<not> isAfk st0" "\<not> isAfk st1" "lastTimestamp st0 = lastTimestamp st1"
    and s0: "sessions st0 = S" and s1: "sessions st1 = S @ [sess s a]"
    and tot: "totalWorkSeconds st1 = totalWorkSeconds st0 + of_int (a - s) / 1000"
    unfolding split_open_def by blast+
  have st: "s < ?t" using order by simp
  have closed: "split_closed s a r S
      ((push_session s ?t st0)\<lparr>sessionStart := None, isAfk := b, lastTimestamp := l,
                                lastWasProductive := w\<rparr>)
      ((push_session r ?t st1)\<lparr>sessionStart := None, isAfk := b, lastTimestamp := l,
                                lastWasProductive := w\<rparr>)" for b l w
    unfolding split_closed_def
    using loc s0 s1 tot st order
    by (intro conjI exI [of _ ?t] exI [of _ "[]"])
       (simp_all add: push_session_locals push_session_sessions push_session_total
          diff_divide_distrib)
  have opened: "split_open s a r S
      (st0\<lparr>isAfk := False, lastTimestamp := Some ?t, lastWasProductive := w\<rparr>)
      (st1\<lparr>isAfk := False, lastTimestamp := Some ?t, lastWasProductive := w\<rparr>)" for w
    unfolding split_open_def using loc s0 s1 tot order by simp
  consider (afk_start) "is_afk x \<noteq> 0" "afk_type x = Some (js ''start'')"
    | (afk_other) "is_afk x \<noteq> 0" "afk_type x \<noteq> Some (js ''start'')"
    | (productive) "is_afk x = 0" "isProductiveActivity (app_name x) (window_title x) apps sites"
    | (unproductive) "is_afk x = 0"
        "\<not> isProductiveActivity (app_name x) (window_title x) apps sites"
    by blast
  then show ?thesis
  proof cases
    case afk_start
    have "walk_step apps sites st0 x =
            (push_session s ?t st0)\<lparr>sessionStart := None, isAfk := True,
               lastTimestamp := Some ?t, lastWasProductive := lastWasProductive st0\<rparr>"
      using afk_start loc by (simp add: walk_step_def Let_def push_session_def)
    moreover have "walk_step apps sites st1 x =
            (push_session r ?t st1)\<lparr>sessionStart := None, isAfk := True,
               lastTimestamp := Some ?t, lastWasProductive := lastWasProductive st1\<rparr>"
      using afk_start loc by (simp add: walk_step_def Let_def push_session_def)
    ultimately show ?thesis
      using closed [of True "Some ?t" "lastWasProductive st0"]
      by (simp add: split_closed_def)
  next
    case afk_other
    have "walk_step apps sites st0 x =
            st0\<lparr>isAfk := False, lastTimestamp := Some ?t, lastWasProductive := lastWasProductive st0\<rparr>"
      using afk_other loc by (simp add: walk_step_def Let_def)
    moreover have "walk_step apps sites st1 x =
            st1\<lparr>isAfk := False, lastTimestamp := Some ?t, lastWasProductive := lastWasProductive st1\<rparr>"
      using afk_other loc by (simp add: walk_step_def Let_def)
    ultimately show ?thesis
      using opened [of "lastWasProductive st0"] by (simp add: split_open_def)
  next
    case productive
    have "walk_step apps sites st0 x =
            st0\<lparr>isAfk := False, lastTimestamp := Some ?t, lastWasProductive := True\<rparr>"
      using productive loc by (simp add: walk_step_def Let_def)
    moreover have "walk_step apps sites st1 x =
            st1\<lparr>isAfk := False, lastTimestamp := Some ?t, lastWasProductive := True\<rparr>"
      using productive loc by (simp add: walk_step_def Let_def)
    ultimately show ?thesis
      using opened [of True] by simp
  next
    case unproductive
    have "walk_step apps sites st0 x =
            (push_session s ?t st0)\<lparr>sessionStart := None, isAfk := False,
               lastTimestamp := Some ?t, lastWasProductive := False\<rparr>"
      using unproductive loc by (simp add: walk_step_def Let_def push_session_def)
    moreover have "walk_step apps sites st1 x =
            (push_session r ?t st1)\<lparr>sessionStart := None, isAfk := False,
               lastTimestamp := Some ?t, lastWasProductive := False\<rparr>"
      using unproductive loc by (simp add: walk_step_def Let_def push_session_def)
    ultimately show ?thesis
      using closed [of False "Some ?t" False] by simp
  qed
qed

lemma foldl_closed:
  "split_closed s a r S st0 st1 \<Longrightarrow>
   split_closed s a r S (foldl (walk_step apps sites) st0 xs) (foldl (walk_step apps sites) st1 xs)"
  by (induction xs arbitrary: st0 st1) (simp_all add: step_closed)

lemma foldl_open:
  assumes "split_open s a r S st0 st1" and "s < a" "a \<le> r" and "\<forall>x\<in>set xs. r \<le> timestamp x"
  shows "split_open s a r S (foldl (walk_step apps sites) st0 xs)
           (foldl (walk_step apps sites) st1 xs)
         \<or> split_closed s a r S (foldl (walk_step apps sites) st0 xs)
             (foldl (walk_step apps sites) st1 xs)"
  using assms
proof (induction xs arbitrary: st0 st1)
  case Nil
  then show ?case by simp
next
  case (Cons x xs)
  have "r \<le> timestamp x" using Cons.prems by simp
  from step_open [OF Cons.prems(1) Cons.prems(2) Cons.prems(3) this, of apps sites]
  show ?case
  proof
    assume "split_open s a r S (walk_step apps sites st0 x) (walk_step apps sites st1 x)"
    then show ?thesis
      using Cons.IH Cons.prems by simp
  next
    assume "split_closed s a r S (walk_step apps sites st0 x) (walk_step apps sites st1 x)"
    then show ?thesis
      using foldl_closed by simp
  qed
qed


lemma finish_closed:
  assumes "split_closed s a r S st0 st1"
  shows "split_result s a r S (walk_finish d now st0) (walk_finish d now st1)"
proof -
  from assms obtain e Z where
    loc: "sessionStart st0 = sessionStart st1" "isAfk st0 = isAfk st1"
         "lastTimestamp st0 = lastTimestamp st1"
    and e: "r \<le> e" and s0: "sessions st0 = S @ [sess s e] @ Z"
    and s1: "sessions st1 = S @ [sess s a] @ (if r < e then [sess r e] else []) @ Z"
    and tot: "totalWorkSeconds st1 = totalWorkSeconds st0 - of_int (r - a) / 1000"
    unfolding split_closed_def by blast
  have same: "split_result s a r S st0 st1"
    unfolding split_result_def using e s0 s1 tot by blast
  have push: "split_result s a r S (push_session u v st0) (push_session u v st1)" for u v
    unfolding split_result_def push_session_sessions push_session_total
    using e s0 s1 tot
    by (intro conjI exI [of _ e] exI [of _ "Z @ (if u < v then [sess u v] else [])"]) simp_all
  show ?thesis
    using loc same push by (simp add: walk_finish_def Let_def split: option.splits)
qed

lemma finish_open:
  assumes rel: "split_open s a r S st0 st1" and order: "s < a" "a \<le> r"
      and now: "d = date_of now \<longrightarrow> r \<le> now"
  shows "split_result s a r S (walk_finish d now st0) (walk_finish d now st1)"
proof -
  from rel have ex: "\<exists>l. lastTimestamp st0 = Some l \<and> r \<le> l"
    and same: "lastTimestamp st0 = lastTimestamp st1"
    and loc0: "sessionStart st0 = Some s" "sessionStart st1 = Some r"
      "\<not> isAfk st0" "\<not> isAfk st1"
    and s0: "sessions st0 = S" and s1: "sessions st1 = S @ [sess s a]"
    and tot: "totalWorkSeconds st1 = totalWorkSeconds st0 + of_int (a - s) / 1000"
    unfolding split_open_def by blast+
  from ex obtain l where l: "lastTimestamp st0 = Some l" "r \<le> l"
    by blast
  note loc = loc0 l(1) same [unfolded l(1), symmetric] l(2)
  define e where "e = (if d = date_of now then now else l)"
  have e: "r \<le> e" using now loc by (simp add: e_def)
  have f0: "walk_finish d now st0 = push_session s e st0"
    using loc by (simp add: walk_finish_def Let_def e_def)
  have f1: "walk_finish d now st1 = push_session r e st1"
    using loc by (simp add: walk_finish_def Let_def e_def)
  show ?thesis
    unfolding f0 f1 split_result_def push_session_sessions push_session_total
    using e order s0 s1 tot
    by (intro conjI exI [of _ e] exI [of _ "[]"]) (simp_all add: diff_divide_distrib)
qed

text \<open>
  What \<open>calculateWorkTimeForDate\<close> does with an AFK pair inside a run. Let a session be
  open at \<open>s\<close> after the events \<open>pre\<close>, and let \<open>p\<close> be the next productive sample.
  Inserting \<open>AfkStart@a\<close> and \<open>AfkEnd@b\<close> between them, with
  \<open>s < a \<le> b \<le> timestamp p\<close>, replaces the session \<open>[s, e]\<close> of that run by the session
  \<open>[s, a]\<close> followed by \<open>[timestamp p, e]\<close> (which is recorded only when
  \<open>timestamp p < e\<close>) and leaves the other sessions as they are. The total decreases by
  \<open>timestamp p - a\<close>, the time from the AFK start to the first productive sample after the
  AFK end, whatever the instant \<open>b\<close> of the AFK end is.
\<close>

lemma afk_pair_splits_run:
  assumes inside: "sessionStart (foldl (walk_step apps sites) walk_init pre) = Some s"
                  "\<not> isAfk (foldl (walk_step apps sites) walk_init pre)"
      and prod: "productive_sample apps sites p"
      and order: "s < a" "a \<le> b" "b \<le> timestamp p" "\<forall>x\<in>set rest. timestamp p \<le> timestamp x"
                 "d = date_of now \<longrightarrow> timestamp p \<le> now"
  shows "\<exists>S Z e. timestamp p \<le> e
           \<and> sessions (reconstruct (pre @ p # rest) d apps sites now) = S @ [sess s e] @ Z
           \<and> sessions (reconstruct
                 (pre @ [afk_marker a ''start'', afk_marker b ''end''] @ p # rest)
                 d apps sites now)
               = S @ [sess s a] @ (if timestamp p < e then [sess (timestamp p) e] else []) @ Z
           \<and> totalWorkSeconds (reconstruct
                 (pre @ [afk_marker a ''start'', afk_marker b ''end''] @ p # rest)
                 d apps sites now)
               = totalWorkSeconds (reconstruct (pre @ p # rest) d apps sites now)
                   - of_int (timestamp p - a) / 1000"
proof -
  let ?f = "walk_step apps sites"
  let ?st = "foldl ?f walk_init pre"
  let ?r = "timestamp p"
  let ?orig = "?f ?st p"
  let ?ins = "?f (?f (?f ?st (afk_marker a ''start'')) (afk_marker b ''end'')) p"
  have ar: "a \<le> ?r" using order by simp
  have st0: "?orig = ?st\<lparr>lastTimestamp := Some ?r, lastWasProductive := True\<rparr>"
    using inside prod by (simp add: walk_step_def productive_sample_def)
  have m1: "?f ?st (afk_marker a ''start'')
              = (push_session s a ?st)\<lparr>sessionStart := None, isAfk := True,
                                         lastTimestamp := Some a\<rparr>"
    using inside by (simp add: walk_step_def afk_marker_def Let_def)
  have m2: "?f (?f ?st (afk_marker a ''start'')) (afk_marker b ''end'')
              = (push_session s a ?st)\<lparr>sessionStart := None, isAfk := False,
                                         lastTimestamp := Some b\<rparr>"
    unfolding m1 by (simp add: walk_step_def afk_marker_def Let_def js_def)
  have st1: "?ins = (push_session s a ?st)\<lparr>sessionStart := Some ?r, isAfk := False,
                       lastTimestamp := Some ?r, lastWasProductive := True\<rparr>"
    unfolding m2 using prod by (simp add: walk_step_def productive_sample_def)
  have rel: "split_open s a ?r (sessions ?st) ?orig ?ins"
    unfolding st0 st1 split_open_def
    using inside order
    by (simp add: push_session_sessions push_session_total)
  have fold0: "foldl ?f walk_init (pre @ p # rest) = foldl ?f ?orig rest"
    by simp
  have fold1: "foldl ?f walk_init (pre @ [afk_marker a ''start'', afk_marker b ''end''] @ p # rest)
                 = foldl ?f ?ins rest"
    by simp
  have "split_result s a ?r (sessions ?st)
          (walk_finish d now (foldl ?f ?orig rest)) (walk_finish d now (foldl ?f ?ins rest))"
    using foldl_open [OF rel order(1) ar order(4), of apps sites]
      finish_open [OF _ order(1) ar order(5)] finish_closed
    by blast
  then have "split_result s a ?r (sessions ?st)
          (reconstruct (pre @ p # rest) d apps sites now)
          (reconstruct (pre @ [afk_marker a ''start'', afk_marker b ''end''] @ p # rest)
             d apps sites now)"
    unfolding reconstruct_def fold0 fold1 by (simp add: split_result_def Let_def)
  then show ?thesis
    unfolding split_result_def by blast
qed

text \<open>
  The scenario: VSCode at 09:30 and at 11:00, AFK from 10:00 to 10:30, queried on the next
  day; and the same day with one more sample at 11:30, queried at 12:00.
\<close>

lemma afk_pair_splits_run_scenario:
  "(\<exists>S Z e. clock 11 0 \<le> e
      \<and> sessions (reconstruct
            [sample (clock 9 30) ''VSCode'' ''a.js'', sample (clock 11 0) ''VSCode'' ''a.js'']
            19737 [js ''VSCode''] [] (clock 36 0)) = S @ [sess (clock 9 30) e] @ Z
      \<and> sessions (reconstruct
            [sample (clock 9 30) ''VSCode'' ''a.js'', afk_marker (clock 10 0) ''start'',
             afk_marker (clock 10 30) ''end'', sample (clock 11 0) ''VSCode'' ''a.js'']
            19737 [js ''VSCode''] [] (clock 36 0))
          = S @ [sess (clock 9 30) (clock 10 0)]
              @ (if clock 11 0 < e then [sess (clock 11 0) e] else []) @ Z
      \<and> totalWorkSeconds (reconstruct
            [sample (clock 9 30) ''VSCode'' ''a.js'', afk_marker (clock 10 0) ''start'',
             afk_marker (clock 10 30) ''end'', sample (clock 11 0) ''VSCode'' ''a.js'']
            19737 [js ''VSCode''] [] (clock 36 0))
          = totalWorkSeconds (reconstruct
              [sample (clock 9 30) ''VSCode'' ''a.js'', sample (clock 11 0) ''VSCode'' ''a.js'']
              19737 [js ''VSCode''] [] (clock 36 0)) - 3600)
   \<and> totalWorkSeconds (reconstruct
         [sample (clock 9 30) ''VSCode'' ''a.js'', afk_marker (clock 10 0) ''start'',
          afk_marker (clock 10 30) ''end'', sample (clock 11 0) ''VSCode'' ''a.js'',
          sample (clock 11 30) ''VSCode'' ''a.js'']
         19737 [js ''VSCode''] [] (clock 12 0))
       = totalWorkSeconds (reconstruct
           [sample (clock 9 30) ''VSCode'' ''a.js'', sample (clock 11 0) ''VSCode'' ''a.js'',
            sample (clock 11 30) ''VSCode'' ''a.js'']
           19737 [js ''VSCode''] [] (clock 12 0)) - 3600"
proof -
  have inside:
    "sessionStart (foldl (walk_step [js ''VSCode''] []) walk_init
        [sample (clock 9 30) ''VSCode'' ''a.js'']) = Some (clock 9 30)"
    "\<not> isAfk (foldl (walk_step [js ''VSCode''] []) walk_init
        [sample (clock 9 30) ''VSCode'' ''a.js''])"
    by (simp_all add: walk_step_def walk_init_def sample_def isProductiveActivity_def js_def)
  have prod: "productive_sample [js ''VSCode''] [] (sample (clock 11 0) ''VSCode'' ''a.js'')"
    by (simp add: productive_sample_def sample_def isProductiveActivity_def js_def)
  have order: "clock 9 30 < clock 10 0" "clock 10 0 \<le> clock 10 30"
    "clock 10 30 \<le> timestamp (sample (clock 11 0) ''VSCode'' ''a.js'')"
    by (simp_all add: clock_def sample_def)
  have past: "\<forall>x\<in>set []. timestamp (sample (clock 11 0) ''VSCode'' ''a.js'') \<le> timestamp x"
    "19737 = date_of (clock 36 0) \<longrightarrow>
       timestamp (sample (clock 11 0) ''VSCode'' ''a.js'') \<le> clock 36 0"
    by (simp_all add: clock_def sample_def date_of_def)
  have today:
    "\<forall>x\<in>set [sample (clock 11 30) ''VSCode'' ''a.js''].
        timestamp (sample (clock 11 0) ''VSCode'' ''a.js'') \<le> timestamp x"
    "19737 = date_of (clock 12 0) \<longrightarrow>
       timestamp (sample (clock 11 0) ''VSCode'' ''a.js'') \<le> clock 12 0"
    by (simp_all add: clock_def sample_def date_of_def)
  have ts: "timestamp (sample (clock 11 0) ''VSCode'' ''a.js'') = clock 11 0"
    by (simp add: sample_def)
  have gap: "rat_of_int (clock 11 0 - clock 10 0) / 1000 = 3600"
    by (simp add: clock_def)
  show ?thesis
    using afk_pair_splits_run [OF inside prod order past]
      afk_pair_splits_run [OF inside prod order today]
    unfolding ts gap by auto
qed

text \<open>
  Claim C1. An AFK pair inserted strictly inside a productive run should split the run
  into two sessions whose durations sum to the original duration minus the AFK gap; with
  VSCode sampled at 09:30 and 11:00 and AFK from 10:00 to 10:30, exactly 30 minutes
  should be excluded. \<open>calculateWorkTimeForDate\<close> does not do that: the AFK end only clears
  the flag, and the next session starts at the next productive sample. On a past day the
  original stream gives one session of 5400 seconds, and with the pair inserted only the
  session 09:30 to 10:00 is recorded (the session opened at 11:00 ends at the last
  timestamp, 11:00, and is dropped): 3600 seconds are excluded, not the 1800 of the AFK
  gap. On the current day, evaluated at 12:00, there are two sessions, and again 3600
  seconds are excluded.
\<close>

theorem afk_gap_counterexample:
  "calculateWorkTimeForDate
     (open_db [sample (clock 9 30) ''VSCode'' ''a.js'', sample (clock 11 0) ''VSCode'' ''a.js''] [])
     19737 [js ''VSCode''] [] (clock 36 0)
   = Some \<lparr>totalWorkSeconds = 5400, sessions = [sess (clock 9 30) (clock 11 0)],
            sessionsCount = 1\<rparr>
   \<and> calculateWorkTimeForDate
       (open_db [sample (clock 9 30) ''VSCode'' ''a.js'', afk_marker (clock 10 0) ''start'',
                 afk_marker (clock 10 30) ''end'', sample (clock 11 0) ''VSCode'' ''a.js''] [])
       19737 [js ''VSCode''] [] (clock 36 0)
     = Some \<lparr>totalWorkSeconds = 1800, sessions = [sess (clock 9 30) (clock 10 0)],
              sessionsCount = 1\<rparr>
   \<and> calculateWorkTimeForDate
       (open_db [sample (clock 9 30) ''VSCode'' ''a.js'', sample (clock 11 0) ''VSCode'' ''a.js''] [])
       19737 [js ''VSCode''] [] (clock 12 0)
     = Some \<lparr>totalWorkSeconds = 9000, sessions = [sess (clock 9 30) (clock 12 0)],
              sessionsCount = 1\<rparr>
   \<and> calculateWorkTimeForDate
       (open_db [sample (clock 9 30) ''VSCode'' ''a.js'', afk_marker (clock 10 0) ''start'',
                 afk_marker (clock 10 30) ''end'', sample (clock 11 0) ''VSCode'' ''a.js''] [])
       19737 [js ''VSCode''] [] (clock 12 0)
     = Some \<lparr>totalWorkSeconds = 5400,
              sessions = [sess (clock 9 30) (clock 10 0), sess (clock 11 0) (clock 12 0)],
              sessionsCount = 2\<rparr>
   \<and> (1800::rat) \<noteq> 5400 - rat_of_int (clock 10 30 - clock 10 0) / 1000
   \<and> (5400::rat) \<noteq> 9000 - rat_of_int (clock 10 30 - clock 10 0) / 1000"
  by (simp add: calculateWorkTimeForDate_def getActivityForDate_def date_of_def reconstruct_def
      walk_step_def walk_init_def walk_finish_def push_session_def sample_def afk_marker_def
      clock_def open_db_def isProductiveActivity_def js_def browsers_def sess_def Let_def)

text \<open>
  In both evaluations the total with the pair inserted is not the original total minus
  the 1800 seconds of the AFK gap.
\<close>

theorem afk_gap_counterexample_witness:
  "map_option totalWorkSeconds
     (calculateWorkTimeForDate
        (open_db [sample (clock 9 30) ''VSCode'' ''a.js'', afk_marker (clock 10 0) ''start'',
                  afk_marker (clock 10 30) ''end'', sample (clock 11 0) ''VSCode'' ''a.js''] [])
        19737 [js ''VSCode''] [] (clock 36 0))
   \<noteq> map_option (\<lambda>r. totalWorkSeconds r - 1800)
       (calculateWorkTimeForDate
          (open_db [sample (clock 9 30) ''VSCode'' ''a.js'',
                    sample (clock 11 0) ''VSCode'' ''a.js''] [])
          19737 [js ''VSCode''] [] (clock 36 0))
   \<and> map_option totalWorkSeconds
       (calculateWorkTimeForDate
          (open_db [sample (clock 9 30) ''VSCode'' ''a.js'', afk_marker (clock 10 0) ''start'',
                    afk_marker (clock 10 30) ''end'', sample (clock 11 0) ''VSCode'' ''a.js''] [])
          19737 [js ''VSCode''] [] (clock 12 0))
     \<noteq> map_option (\<lambda>r. totalWorkSeconds r - 1800)
         (calculateWorkTimeForDate
            (open_db [sample (clock 9 30) ''VSCode'' ''a.js'',
                      sample (clock 11 0) ''VSCode'' ''a.js''] [])
            19737 [js ''VSCode''] [] (clock 12 0))"
  using afk_gap_counterexample by simp

section \<open>Project detection\<close>












end
